theory Spec2Isabelle
  imports Main "HOL-Library.Word" "HOL-Library.Signed_Division"
begin

unbundle bit_operations_syntax

section \<open>Data model of e\_bsp.c\<close>

text \<open>
  The Epiphany is a 32-bit machine: \<open>void*\<close>, \<open>int\<close> and \<open>unsigned int\<close> are 32 bits
  wide.  Pointers and all integers that take part in arithmetic that may wrap around
  (\<open>nbytes\<close>, \<open>offset\<close>, the payload watermark, the unsigned counters of
  \<open>ebsp_core_data\<close>) are \<open>32 word\<close>.  Processor ids are C \<open>int\<close>s that are only
  compared, used as array indices and divided by the number of grid columns; they are
  \<open>int\<close>, divided with C's truncating division.  Fixed-size C arrays are total functions
  of their index; an access outside the declared bounds, undefined in C, is not
  distinguished by the model.

  \<open>bsp_begin\<close>, \<open>bsp_end\<close>, \<open>bsp_nprocs\<close>, \<open>bsp_pid\<close>, the timer functions and
  \<open>_write_syncstate\<close> take no part in the properties below and are not modelled.
\<close>

type_synonym addr = "32 word"
type_synonym byte = "8 word"
type_synonym memory = "addr \<Rightarrow> byte"

text \<open>
  The error strings \<open>err_pushreg_multiple\<close> ... \<open>err_send_overflow\<close> of the source, with
  the arguments that \<open>err_var_not_found\<close> is formatted with.
\<close>

datatype ebsp_msg =
    err_pushreg_multiple
  | err_pushreg_overflow
  | err_var_not_found int addr
  | err_get_overflow
  | err_put_overflow
  | err_put_overflow2
  | err_send_overflow

text \<open>
  \<open>ebsp_core_data\<close>: the fields of the struct that the communication protocol uses (the
  timer fields, the barrier arrays and the two mutexes are left out; barrier and mutex are
  modelled by the scheduling of the steps below).
\<close>

record ebsp_core_data =
  pid :: int
  nprocs :: int
  request_counter :: "32 word"
  var_pushed :: int
  tag_size :: "32 word"
  tag_size_next :: "32 word"
  queue_index :: "32 word"
  message_index :: "32 word"

record ebsp_data_request =
  src :: addr
  dst :: addr
  nbytes :: "32 word"

record ebsp_message_header =
  pid :: int
  tag :: addr
  payload :: addr
  nbytes :: "32 word"

record ebsp_message_queue =
  message :: "nat \<Rightarrow> ebsp_message_header"
  count :: "32 word"

text \<open>
  \<open>ebsp_comm_buf\<close>, the shared communication buffer.  Its declaration is in a header that
  is not part of the sources at hand; the fields are the ones e\_bsp.c reads and writes.
  \<open>buffer_size\<close> is \<open>data_payloads.buffer_size\<close>; the bytes of \<open>data_payloads.buf\<close> live
  in the byte memory at the address \<open>payload_buf\<close> of the configuration below.
  \<open>msgbuf\<close> holds the last message relayed to the host.
\<close>

record ebsp_comm_buf =
  data_requests :: "int \<Rightarrow> nat \<Rightarrow> ebsp_data_request"
  buffer_size :: "32 word"
  message_queue :: "nat \<Rightarrow> ebsp_message_queue"
  bsp_var_list :: "nat \<Rightarrow> int \<Rightarrow> addr"
  bsp_var_counter :: nat
  msgbuf :: "ebsp_msg option"
  msgflag :: int

text \<open>
  The constants and external facilities that e\_bsp.c uses and that are declared
  elsewhere (e\_bsp.h, e-lib.h) are parameters of the model: the capacities, the number of
  columns of the core grid, the address translation \<open>e_get_global_address\<close> of e-lib and
  the address of \<open>comm_buf->data_payloads.buf\<close>.
\<close>

record ebsp_config =
  MAX_BSP_VARS :: nat
  MAX_DATA_REQUESTS :: "32 word"
  MAX_PAYLOAD_SIZE :: "32 word"
  MAX_MESSAGES :: "32 word"
  group_cols :: int
  e_get_global_address :: "int \<Rightarrow> int \<Rightarrow> addr \<Rightarrow> addr"
  payload_buf :: addr

text \<open>
  Modelled from the spec: the macro \<open>DATA_PUT_BIT\<close> is declared in a header that is
  missing; the spec says that the high bit of the byte count field is the put/get
  discriminator.
\<close>

definition DATA_PUT_BIT :: "32 word" where
  "DATA_PUT_BIT = 0x80000000"

text \<open>
  The state one core works on: its own \<open>coredata\<close>, the shared \<open>comm_buf\<close> and the byte
  memory that the pointers of the program refer to.  There is one address space for all
  cores (the hardware's aliasing of a core's local addresses is not modelled), and the
  fields of \<open>coredata\<close> and \<open>comm_buf\<close> are kept apart from the byte memory: a copy
  through a pointer does not overwrite them.
\<close>

record bsp_state =
  coredata :: ebsp_core_data
  comm_buf :: ebsp_comm_buf
  mem :: memory

text \<open>
  \<open>memcpy(dst, src, n)\<close>: the \<open>n\<close> bytes from \<open>src\<close> are read before any is written.
  The size is a \<open>size_t\<close>, so an \<open>int\<close> argument is converted to unsigned.  A byte
  count with the sign bit set becomes a size of \<open>2^31\<close> bytes or more, beyond any object
  of the program: such a copy is undefined in C, and the monotonicity of the payload
  watermark below is stated for byte counts that are not negative.
\<close>

definition memcpy :: "addr \<Rightarrow> addr \<Rightarrow> 32 word \<Rightarrow> memory \<Rightarrow> memory" where
  "memcpy d s n m = (\<lambda>a. if unat (a - d) < unat n then m (s + (a - d)) else m a)"

section \<open>Diagnostics channel\<close>

text \<open>
  \<open>ebsp_message\<close> writes the rendered message into \<open>msgbuf\<close>, sets \<open>msgflag\<close> to
  \<open>pid + 1\<close> and spins until \<open>msgflag\<close> is 0 again.  Modelled from the spec: the host,
  which is not part of e\_bsp.c, prints the message and clears the flag; the state in which
  \<open>ebsp_message\<close> returns is therefore the one with the message in \<open>msgbuf\<close> and the
  flag cleared.
\<close>

definition ebsp_message :: "ebsp_msg \<Rightarrow> bsp_state \<Rightarrow> bsp_state" where
  "ebsp_message msg s = s\<lparr>comm_buf := (comm_buf s)\<lparr>msgbuf := Some msg, msgflag := 0\<rparr>\<rparr>"

section \<open>Variable registry\<close>

text \<open>
  Operations that return \<open>void\<close> yield the message they relayed to the host, if any, and
  the state they leave.
\<close>

definition bsp_push_reg ::
  "ebsp_config \<Rightarrow> addr \<Rightarrow> 32 word \<Rightarrow> bsp_state \<Rightarrow> ebsp_msg option \<times> bsp_state" where
  "bsp_push_reg cfg variable n s =
    (if var_pushed (coredata s) \<noteq> 0
     then (Some err_pushreg_multiple, ebsp_message err_pushreg_multiple s)
     else if bsp_var_counter (comm_buf s) = MAX_BSP_VARS cfg
     then (Some err_pushreg_overflow, ebsp_message err_pushreg_overflow s)
     else
       (None,
        s\<lparr>comm_buf := (comm_buf s)\<lparr>bsp_var_list :=
              (bsp_var_list (comm_buf s))
                (bsp_var_counter (comm_buf s) :=
                   (bsp_var_list (comm_buf s) (bsp_var_counter (comm_buf s)))
                     (ebsp_core_data.pid (coredata s) := variable))\<rparr>,
          coredata := (coredata s)\<lparr>var_pushed := 1\<rparr>\<rparr>))"

definition row_from_pid :: "ebsp_config \<Rightarrow> int \<Rightarrow> int" where
  "row_from_pid cfg p = p sdiv group_cols cfg"

definition col_from_pid :: "ebsp_config \<Rightarrow> int \<Rightarrow> int" where
  "col_from_pid cfg p = p smod group_cols cfg"

text \<open>
  The loop of \<open>_get_remote_addr\<close>: \<open>search_slot tbl me a slot k\<close> examines the \<open>k\<close> slots
  from \<open>slot\<close> on and returns the first one whose entry in column \<open>me\<close> is \<open>a\<close>.
\<close>

fun search_slot :: "(nat \<Rightarrow> int \<Rightarrow> addr) \<Rightarrow> int \<Rightarrow> addr \<Rightarrow> nat \<Rightarrow> nat \<Rightarrow> nat option" where
  "search_slot tbl me a slot 0 = None"
| "search_slot tbl me a slot (Suc k) =
    (if tbl slot me = a then Some slot else search_slot tbl me a (Suc slot) k)"

text \<open>
  \<open>_get_remote_addr\<close> returns the null pointer when the variable is not found; the
  message relayed in that case is returned with it.
\<close>

definition get_remote_addr ::
  "ebsp_config \<Rightarrow> int \<Rightarrow> addr \<Rightarrow> 32 word \<Rightarrow> bsp_state \<Rightarrow> ebsp_msg option \<times> addr \<times> bsp_state" where
  "get_remote_addr cfg p a offset s =
    (case search_slot (bsp_var_list (comm_buf s)) (ebsp_core_data.pid (coredata s)) a 0
            (MAX_BSP_VARS cfg) of
       Some slot \<Rightarrow>
         (None,
          e_get_global_address cfg (row_from_pid cfg p) (col_from_pid cfg p)
            (bsp_var_list (comm_buf s) slot p + offset),
          s)
     | None \<Rightarrow>
         (Some (err_var_not_found p a), 0, ebsp_message (err_var_not_found p a) s))"

section \<open>Buffered and unbuffered remote memory access\<close>

text \<open>
  \<open>bsp_put\<close>.  \<open>payload_offset\<close> is an \<open>unsigned int\<close>, so the sum with \<open>nbytes\<close> is
  computed modulo \<open>2^32\<close> and compared unsigned, and the value \<open>-1\<close> that marks the
  overflow is the word \<open>0xFFFFFFFF\<close>.  The watermark is advanced inside the critical
  section, the request and the payload are stored after it.
\<close>

definition bsp_put ::
  "ebsp_config \<Rightarrow> int \<Rightarrow> addr \<Rightarrow> addr \<Rightarrow> 32 word \<Rightarrow> 32 word \<Rightarrow> bsp_state
     \<Rightarrow> ebsp_msg option \<times> bsp_state" where
  "bsp_put cfg p a_src a_dst offset n s =
    (if MAX_DATA_REQUESTS cfg \<le> request_counter (coredata s)
     then (Some err_put_overflow, ebsp_message err_put_overflow s)
     else
       (case get_remote_addr cfg p a_dst offset s of
          (e, dst_remote, s1) \<Rightarrow>
            if dst_remote = 0 then (e, s1)
            else
              let payload_offset0 = buffer_size (comm_buf s1);
                  fits = \<not> (payload_offset0 + n > MAX_PAYLOAD_SIZE cfg);
                  payload_offset = (if fits then payload_offset0 else - 1);
                  s2 = (if fits
                        then s1\<lparr>comm_buf := (comm_buf s1)\<lparr>buffer_size :=
                                  buffer_size (comm_buf s1) + n\<rparr>\<rparr>
                        else s1)
              in
                if payload_offset = - 1
                then (Some err_put_overflow2, ebsp_message err_put_overflow2 s2)
                else
                  let payload_ptr = payload_buf cfg + payload_offset;
                      me = ebsp_core_data.pid (coredata s2);
                      rc = request_counter (coredata s2);
                      req = \<lparr>src = payload_ptr, dst = dst_remote,
                             ebsp_data_request.nbytes = n OR DATA_PUT_BIT\<rparr>
                  in
                    (None,
                     s2\<lparr>comm_buf := (comm_buf s2)\<lparr>data_requests :=
                            (data_requests (comm_buf s2))
                              (me := (data_requests (comm_buf s2) me)(unat rc := req))\<rparr>,
                        coredata := (coredata s2)\<lparr>request_counter := rc + 1\<rparr>,
                        mem := memcpy payload_ptr a_src n (mem s2)\<rparr>)))"

definition bsp_hpput ::
  "ebsp_config \<Rightarrow> int \<Rightarrow> addr \<Rightarrow> addr \<Rightarrow> 32 word \<Rightarrow> 32 word \<Rightarrow> bsp_state
     \<Rightarrow> ebsp_msg option \<times> bsp_state" where
  "bsp_hpput cfg p a_src a_dst offset n s =
    (case get_remote_addr cfg p a_dst offset s of
       (e, dst_remote, s1) \<Rightarrow>
         if dst_remote = 0 then (e, s1)
         else (None, s1\<lparr>mem := memcpy dst_remote a_src n (mem s1)\<rparr>))"

definition bsp_get ::
  "ebsp_config \<Rightarrow> int \<Rightarrow> addr \<Rightarrow> 32 word \<Rightarrow> addr \<Rightarrow> 32 word \<Rightarrow> bsp_state
     \<Rightarrow> ebsp_msg option \<times> bsp_state" where
  "bsp_get cfg p a_src offset a_dst n s =
    (if MAX_DATA_REQUESTS cfg \<le> request_counter (coredata s)
     then (Some err_get_overflow, ebsp_message err_get_overflow s)
     else
       (case get_remote_addr cfg p a_src offset s of
          (e, src_remote, s1) \<Rightarrow>
            if src_remote = 0 then (e, s1)
            else
              let me = ebsp_core_data.pid (coredata s1);
                  rc = request_counter (coredata s1);
                  req = \<lparr>src = src_remote, dst = a_dst, ebsp_data_request.nbytes = n\<rparr>
              in
                (None,
                 s1\<lparr>comm_buf := (comm_buf s1)\<lparr>data_requests :=
                        (data_requests (comm_buf s1))
                          (me := (data_requests (comm_buf s1) me)(unat rc := req))\<rparr>,
                    coredata := (coredata s1)\<lparr>request_counter := rc + 1\<rparr>\<rparr>)))"

definition bsp_hpget ::
  "ebsp_config \<Rightarrow> int \<Rightarrow> addr \<Rightarrow> 32 word \<Rightarrow> addr \<Rightarrow> 32 word \<Rightarrow> bsp_state
     \<Rightarrow> ebsp_msg option \<times> bsp_state" where
  "bsp_hpget cfg p a_src offset a_dst n s =
    (case get_remote_addr cfg p a_src offset s of
       (e, src_remote, s1) \<Rightarrow>
         if src_remote = 0 then (e, s1)
         else (None, s1\<lparr>mem := memcpy a_dst src_remote n (mem s1)\<rparr>))"

section \<open>Message passing\<close>

text \<open>
  \<open>bsp_set_tagsize\<close> has an in-out parameter: the model takes the value passed in and
  returns the value written back.
\<close>

definition bsp_set_tagsize :: "32 word \<Rightarrow> bsp_state \<Rightarrow> 32 word \<times> bsp_state" where
  "bsp_set_tagsize tag_bytes s =
    (tag_size (coredata s), s\<lparr>coredata := (coredata s)\<lparr>tag_size_next := tag_bytes\<rparr>\<rparr>)"

text \<open>
  \<open>bsp_send\<close>.  The queue is \<open>message_queue[coredata.queue_index]\<close>.  Inside the critical
  section the test adds \<open>tag_size\<close> and \<open>nbytes\<close> to the watermark, and the success
  branch advances the watermark by \<open>nbytes\<close>.  \<open>index\<close> and \<open>payload_offset\<close> are
  unsigned, \<open>-1\<close> is \<open>0xFFFFFFFF\<close>.
\<close>

definition bsp_send ::
  "ebsp_config \<Rightarrow> int \<Rightarrow> addr \<Rightarrow> addr \<Rightarrow> 32 word \<Rightarrow> bsp_state \<Rightarrow> ebsp_msg option \<times> bsp_state" where
  "bsp_send cfg p a_tag a_payload n s =
    (let qi = unat (queue_index (coredata s));
         q = message_queue (comm_buf s) qi;
         index0 = count q;
         payload_offset0 = buffer_size (comm_buf s);
         full = (payload_offset0 + tag_size (coredata s) + n > MAX_PAYLOAD_SIZE cfg
                 \<or> index0 \<ge> MAX_MESSAGES cfg);
         index = (if full then - 1 else index0);
         payload_offset = (if full then - 1 else payload_offset0);
         s1 = (if full then s
               else s\<lparr>comm_buf := (comm_buf s)
                      \<lparr>message_queue := (message_queue (comm_buf s))(qi := q\<lparr>count := count q + 1\<rparr>),
                       buffer_size := buffer_size (comm_buf s) + n\<rparr>\<rparr>)
     in
       if index = - 1 then (Some err_send_overflow, ebsp_message err_send_overflow s1)
       else
         let tag_ptr = payload_buf cfg + payload_offset;
             payload_ptr = payload_buf cfg + (payload_offset + tag_size (coredata s1));
             q1 = message_queue (comm_buf s1) qi;
             hdr = \<lparr>ebsp_message_header.pid = p, tag = tag_ptr, payload = payload_ptr,
                    ebsp_message_header.nbytes = n\<rparr>
         in
           (None,
            s1\<lparr>comm_buf := (comm_buf s1)
                  \<lparr>message_queue := (message_queue (comm_buf s1))
                     (qi := q1\<lparr>message := (message q1)(unat index := hdr)\<rparr>)\<rparr>,
               mem := memcpy payload_ptr a_payload n
                        (memcpy tag_ptr a_tag (tag_size (coredata s1)) (mem s1))\<rparr>))"

text \<open>
  The loop of \<open>_next_queue_message\<close>: from the cursor \<open>mi\<close> on, skip the messages
  addressed to other cores; stop at the first one for \<open>me\<close> or at \<open>qsize\<close>.  The
  comparison of the unsigned cursor with \<open>int qsize\<close> is unsigned.
\<close>

function scan_queue ::
  "(nat \<Rightarrow> ebsp_message_header) \<Rightarrow> int \<Rightarrow> 32 word \<Rightarrow> 32 word \<Rightarrow> 32 word" where
  "scan_queue msgs me qsize mi =
    (if mi < qsize
     then (if ebsp_message_header.pid (msgs (unat mi)) \<noteq> me
           then scan_queue msgs me qsize (mi + 1)
           else mi)
     else mi)"
  by pat_completeness auto
termination
proof (relation "measure (\<lambda>(msgs, me, qsize, mi). unat qsize - unat mi)")
  show "wf (measure (\<lambda>(msgs, me, qsize, mi). unat qsize - unat mi))"
    by simp
next
  fix msgs :: "nat \<Rightarrow> ebsp_message_header" and me :: int and qsize mi :: "32 word"
  assume lt: "mi < qsize"
  then have less: "unat mi < unat qsize"
    by (simp add: word_less_nat_alt)
  moreover have "unat qsize < 2 ^ 32"
    using unsigned_less [of qsize] by simp
  ultimately have "unat mi + unat (1 :: 32 word) < 2 ^ LENGTH(32)"
    by simp
  then have "unat (mi + 1) = unat mi + unat (1 :: 32 word)"
    by (simp only: unat_add_lem)
  with less show "((msgs, me, qsize, mi + 1), (msgs, me, qsize, mi))
      \<in> measure (\<lambda>(msgs, me, qsize, mi). unat qsize - unat mi)"
    by simp
qed

text \<open>
  \<open>_next_queue_message\<close> returns a pointer to the header found, or the null pointer; the
  model returns the header.  The cursor \<open>coredata.message_index\<close> is the loop variable and
  keeps the value the loop ends with.
\<close>

definition next_queue_message :: "bsp_state \<Rightarrow> ebsp_message_header option \<times> bsp_state" where
  "next_queue_message s =
    (let q = message_queue (comm_buf s) (unat (queue_index (coredata s)));
         qsize = count q;
         mi = scan_queue (message q) (ebsp_core_data.pid (coredata s)) qsize
                (message_index (coredata s));
         s1 = s\<lparr>coredata := (coredata s)\<lparr>message_index := mi\<rparr>\<rparr>
     in (if mi < qsize then Some (message q (unat mi)) else None, s1))"

definition pop_queue_message :: "bsp_state \<Rightarrow> bsp_state" where
  "pop_queue_message s =
    s\<lparr>coredata := (coredata s)\<lparr>message_index := message_index (coredata s) + 1\<rparr>\<rparr>"

text \<open>
  The loop of \<open>bsp_qsize\<close>.  Its loop variable is \<open>coredata.message_index\<close> itself.
  The statement \<open>*packets++\<close> parses as \<open>*(packets++)\<close>: it reads the \<open>int\<close> and advances
  the local pointer \<open>packets\<close>, which is not used again; the \<open>int\<close> that the caller
  passed is left as it is.  \<open>pk\<close> and \<open>acc\<close> are the values of \<open>*packets\<close> (at the
  caller's address) and \<open>*accum_bytes\<close>.
\<close>

function qsize_loop ::
  "(nat \<Rightarrow> ebsp_message_header) \<Rightarrow> int \<Rightarrow> 32 word \<Rightarrow> 32 word \<Rightarrow> 32 word \<Rightarrow> 32 word
     \<Rightarrow> 32 word \<times> 32 word \<times> 32 word" where
  "qsize_loop msgs me qsize mi pk acc =
    (if mi < qsize
     then (if ebsp_message_header.pid (msgs (unat mi)) \<noteq> me
           then qsize_loop msgs me qsize (mi + 1) pk acc
           else qsize_loop msgs me qsize (mi + 1) pk
                  (acc + ebsp_message_header.nbytes (msgs (unat mi))))
     else (mi, pk, acc))"
  by pat_completeness auto
termination
proof (relation "measure (\<lambda>(msgs, me, qsize, mi, pk, acc). unat qsize - unat mi)")
  show "wf (measure (\<lambda>(msgs, me, qsize, mi, pk, acc). unat qsize - unat mi))"
    by simp
next
  fix msgs :: "nat \<Rightarrow> ebsp_message_header" and me :: int and qsize mi pk acc :: "32 word"
  assume lt: "mi < qsize"
  then have less: "unat mi < unat qsize"
    by (simp add: word_less_nat_alt)
  moreover have "unat qsize < 2 ^ 32"
    using unsigned_less [of qsize] by simp
  ultimately have "unat mi + unat (1 :: 32 word) < 2 ^ LENGTH(32)"
    by simp
  then have "unat (mi + 1) = unat mi + unat (1 :: 32 word)"
    by (simp only: unat_add_lem)
  with less show "((msgs, me, qsize, mi + 1, pk, acc), (msgs, me, qsize, mi, pk, acc))
      \<in> measure (\<lambda>(msgs, me, qsize, mi, pk, acc). unat qsize - unat mi)"
    by simp
next
  fix msgs :: "nat \<Rightarrow> ebsp_message_header" and me :: int and qsize mi pk acc :: "32 word"
  assume lt: "mi < qsize"
  then have less: "unat mi < unat qsize"
    by (simp add: word_less_nat_alt)
  moreover have "unat qsize < 2 ^ 32"
    using unsigned_less [of qsize] by simp
  ultimately have "unat mi + unat (1 :: 32 word) < 2 ^ LENGTH(32)"
    by simp
  then have "unat (mi + 1) = unat mi + unat (1 :: 32 word)"
    by (simp only: unat_add_lem)
  with less show "((msgs, me, qsize, mi + 1, pk,
        acc + ebsp_message_header.nbytes (msgs (unat mi))), (msgs, me, qsize, mi, pk, acc))
      \<in> measure (\<lambda>(msgs, me, qsize, mi, pk, acc). unat qsize - unat mi)"
    by simp
qed

declare scan_queue.simps [simp del]

declare qsize_loop.simps [simp del]

text \<open>
  \<open>bsp_qsize\<close> returns the values it leaves in \<open>*packets\<close> and \<open>*accum_bytes\<close>.
\<close>

definition bsp_qsize :: "bsp_state \<Rightarrow> 32 word \<times> 32 word \<times> bsp_state" where
  "bsp_qsize s =
    (let q = message_queue (comm_buf s) (unat (queue_index (coredata s)));
         qsize = count q
     in case qsize_loop (message q) (ebsp_core_data.pid (coredata s)) qsize
               (message_index (coredata s)) 0 0 of
          (mi, pk, acc) \<Rightarrow>
            (pk, acc, s\<lparr>coredata := (coredata s)\<lparr>message_index := mi\<rparr>\<rparr>))"

text \<open>
  \<open>bsp_get_tag\<close> returns the value it leaves in \<open>*status\<close>; the tag is copied to the
  address \<open>a_tag\<close>.
\<close>

definition bsp_get_tag :: "addr \<Rightarrow> bsp_state \<Rightarrow> 32 word \<times> bsp_state" where
  "bsp_get_tag a_tag s =
    (case next_queue_message s of
       (None, s1) \<Rightarrow> (- 1, s1)
     | (Some m, s1) \<Rightarrow>
         (ebsp_message_header.nbytes m,
          s1\<lparr>mem := memcpy a_tag (tag m) (tag_size (coredata s1)) (mem s1)\<rparr>))"

text \<open>
  \<open>bsp_move\<close>.  \<open>m->nbytes < buffer_size\<close> compares two \<open>int\<close>s (\<open>bsp_send\<close> stores
  its \<open>int nbytes\<close> in the header), and the result is passed to \<open>memcpy\<close> as the size.
\<close>

definition bsp_move :: "addr \<Rightarrow> 32 word \<Rightarrow> bsp_state \<Rightarrow> bsp_state" where
  "bsp_move a_payload bufsize s =
    (case next_queue_message s of
       (mo, s1) \<Rightarrow>
         let s2 = pop_queue_message s1 in
           (case mo of
              None \<Rightarrow> s2
            | Some m \<Rightarrow>
                if bufsize = 0 then s2
                else
                  let bufsize1 = (if sint (ebsp_message_header.nbytes m) < sint bufsize
                                  then ebsp_message_header.nbytes m else bufsize)
                  in s2\<lparr>mem := memcpy a_payload (payload m) bufsize1 (mem s2)\<rparr>))"

text \<open>
  \<open>bsp_hpmove\<close> returns its result and the two pointers it stores through its
  arguments; when there is no message it returns \<open>-1\<close> and stores nothing.
\<close>

definition bsp_hpmove :: "bsp_state \<Rightarrow> 32 word \<times> (addr \<times> addr) option \<times> bsp_state" where
  "bsp_hpmove s =
    (case next_queue_message s of
       (mo, s1) \<Rightarrow>
         let s2 = pop_queue_message s1 in
           (case mo of
              None \<Rightarrow> (- 1, None, s2)
            | Some m \<Rightarrow> (ebsp_message_header.nbytes m, Some (tag m, payload m), s2)))"

section \<open>Synchronisation\<close>

text \<open>
  One iteration of the first and of the second loop of \<open>bsp_sync\<close> over the request table
  \<open>reqs\<close> of the calling core: a request whose \<open>nbytes\<close> has \<open>DATA_PUT_BIT\<close> clear is
  copied by the first loop, one that has it set by the second.
\<close>

definition apply_request :: "ebsp_data_request \<Rightarrow> memory \<Rightarrow> memory" where
  "apply_request r m =
    memcpy (dst r) (src r) (ebsp_data_request.nbytes r AND NOT DATA_PUT_BIT) m"

definition is_get :: "ebsp_data_request \<Rightarrow> bool" where
  "is_get r = (ebsp_data_request.nbytes r AND DATA_PUT_BIT = 0)"

definition is_put :: "ebsp_data_request \<Rightarrow> bool" where
  "is_put r = (ebsp_data_request.nbytes r AND DATA_PUT_BIT \<noteq> 0)"

definition get_iteration :: "(nat \<Rightarrow> ebsp_data_request) \<Rightarrow> nat \<Rightarrow> memory \<Rightarrow> memory" where
  "get_iteration reqs i m = (if is_get (reqs i) then apply_request (reqs i) m else m)"

definition put_iteration :: "(nat \<Rightarrow> ebsp_data_request) \<Rightarrow> nat \<Rightarrow> memory \<Rightarrow> memory" where
  "put_iteration reqs i m = (if is_put (reqs i) then apply_request (reqs i) m else m)"

text \<open>
  The statements of \<open>bsp_sync\<close> between the second loop and the last barrier.
\<close>

definition sync_finish :: "bsp_state \<Rightarrow> bsp_state" where
  "sync_finish s =
    (let cd1 = (coredata s)\<lparr>request_counter := 0\<rparr>;
         cb1 = (comm_buf s)\<lparr>buffer_size := 0\<rparr>;
         cd2 = (if var_pushed cd1 \<noteq> 0 then cd1\<lparr>var_pushed := 0\<rparr> else cd1);
         cb2 = (if var_pushed cd1 \<noteq> 0 \<and> ebsp_core_data.pid cd1 = 0
                then cb1\<lparr>bsp_var_counter := bsp_var_counter cb1 + 1\<rparr> else cb1);
         cd3 = cd2\<lparr>queue_index := queue_index cd2 + 1\<rparr>;
         cd4 = (if queue_index cd3 = 2 then cd3\<lparr>queue_index := 0\<rparr> else cd3);
         cd5 = cd4\<lparr>tag_size := tag_size_next cd4, message_index := 0\<rparr>
     in s\<lparr>coredata := cd5, comm_buf := cb2\<rparr>)"

text \<open>
  \<open>bsp_sync\<close> as one core runs it from the first barrier to the last, the other cores
  making no step in between (the barriers are then no-ops).
\<close>

definition bsp_sync :: "bsp_state \<Rightarrow> bsp_state" where
  "bsp_sync s =
    (let reqs = data_requests (comm_buf s) (ebsp_core_data.pid (coredata s));
         rc = unat (request_counter (coredata s));
         m1 = fold (get_iteration reqs) [0..<rc] (mem s);
         m2 = fold (put_iteration reqs) [0..<rc] m1
     in sync_finish (s\<lparr>mem := m2\<rparr>))"

section \<open>The calls of the interface\<close>

datatype bsp_call =
    Push_reg addr "32 word"
  | Put int addr addr "32 word" "32 word"
  | Hpput int addr addr "32 word" "32 word"
  | Get int addr "32 word" addr "32 word"
  | Hpget int addr "32 word" addr "32 word"
  | Set_tagsize "32 word"
  | Send int addr addr "32 word"
  | Qsize
  | Get_tag addr
  | Move addr "32 word"
  | Hpmove
  | Sync

fun exec_call :: "ebsp_config \<Rightarrow> bsp_call \<Rightarrow> bsp_state \<Rightarrow> bsp_state" where
  "exec_call cfg (Push_reg variable n) s = snd (bsp_push_reg cfg variable n s)"
| "exec_call cfg (Put p a_src a_dst offset n) s = snd (bsp_put cfg p a_src a_dst offset n s)"
| "exec_call cfg (Hpput p a_src a_dst offset n) s = snd (bsp_hpput cfg p a_src a_dst offset n s)"
| "exec_call cfg (Get p a_src offset a_dst n) s = snd (bsp_get cfg p a_src offset a_dst n s)"
| "exec_call cfg (Hpget p a_src offset a_dst n) s = snd (bsp_hpget cfg p a_src offset a_dst n s)"
| "exec_call cfg (Set_tagsize tag_bytes) s = snd (bsp_set_tagsize tag_bytes s)"
| "exec_call cfg (Send p a_tag a_payload n) s = snd (bsp_send cfg p a_tag a_payload n s)"
| "exec_call cfg Qsize s = snd (snd (bsp_qsize s))"
| "exec_call cfg (Get_tag a_tag) s = snd (bsp_get_tag a_tag s)"
| "exec_call cfg (Move a_payload bufsize) s = bsp_move a_payload bufsize s"
| "exec_call cfg Hpmove s = snd (snd (bsp_hpmove s))"
| "exec_call cfg Sync s = bsp_sync s"

text \<open>The byte count by which a call asks to advance the payload watermark.\<close>

fun reserved_bytes :: "bsp_call \<Rightarrow> 32 word" where
  "reserved_bytes (Put p a_src a_dst offset n) = n"
| "reserved_bytes (Send p a_tag a_payload n) = n"
| "reserved_bytes c = 0"

section \<open>All cores in \<open>bsp_sync\<close>\<close>

text \<open>
  The machine: the \<open>coredata\<close> of every core, the shared buffer, the memory, and for
  every core the place in \<open>bsp_sync\<close> it has reached: waiting at one of the three
  barriers, about to run iteration \<open>i\<close> of the first or of the second loop, or returned.
\<close>

datatype sync_pc =
    At_barrier1
  | Get_loop nat
  | At_barrier2
  | Put_loop nat
  | At_barrier3
  | Returned

record bsp_machine =
  cores :: "nat \<Rightarrow> ebsp_core_data"
  pcs :: "nat \<Rightarrow> sync_pc"
  shared :: ebsp_comm_buf
  ram :: memory

definition view :: "nat \<Rightarrow> bsp_machine \<Rightarrow> bsp_state" where
  "view c g = \<lparr>coredata = cores g c, comm_buf = shared g, mem = ram g\<rparr>"

definition all_at :: "nat \<Rightarrow> sync_pc \<Rightarrow> bsp_machine \<Rightarrow> bool" where
  "all_at n pc g = list_all (\<lambda>c. pcs g c = pc) [0..<n]"

definition release :: "nat \<Rightarrow> sync_pc \<Rightarrow> bsp_machine \<Rightarrow> bsp_machine" where
  "release n pc g = g\<lparr>pcs := (\<lambda>c. if c < n then pc else pcs g c)\<rparr>"

text \<open>
  Modelled from the spec: \<open>e_barrier\<close> belongs to e-lib; the spec says that it blocks
  until all participants have called it.  A core waiting at a barrier makes no progress
  until all \<open>n\<close> cores wait at it; then all of them pass.

  \<open>sync_step n c g\<close> is one step of core \<open>c\<close>: passing a barrier, one iteration of a
  loop, or leaving a loop (after the second loop, with the statements up to the last
  barrier).  It returns the copy it performed, if any, with the core that performed it.
\<close>

definition sync_step ::
  "nat \<Rightarrow> nat \<Rightarrow> bsp_machine \<Rightarrow> (nat \<times> ebsp_data_request) option \<times> bsp_machine" where
  "sync_step n c g =
    (if \<not> c < n then (None, g)
     else
       let reqs = data_requests (shared g) (ebsp_core_data.pid (cores g c));
           rc = unat (request_counter (cores g c))
       in
         case pcs g c of
           At_barrier1 \<Rightarrow>
             (None, if all_at n At_barrier1 g then release n (Get_loop 0) g else g)
         | Get_loop i \<Rightarrow>
             if i < rc
             then (if is_get (reqs i) then Some (c, reqs i) else None,
                   g\<lparr>ram := get_iteration reqs i (ram g),
                     pcs := (pcs g)(c := Get_loop (Suc i))\<rparr>)
             else (None, g\<lparr>pcs := (pcs g)(c := At_barrier2)\<rparr>)
         | At_barrier2 \<Rightarrow>
             (None, if all_at n At_barrier2 g then release n (Put_loop 0) g else g)
         | Put_loop i \<Rightarrow>
             if i < rc
             then (if is_put (reqs i) then Some (c, reqs i) else None,
                   g\<lparr>ram := put_iteration reqs i (ram g),
                     pcs := (pcs g)(c := Put_loop (Suc i))\<rparr>)
             else
               let s = sync_finish (view c g)
               in (None,
                   g\<lparr>cores := (cores g)(c := coredata s),
                     shared := comm_buf s,
                     pcs := (pcs g)(c := At_barrier3)\<rparr>)
         | At_barrier3 \<Rightarrow>
             (None, if all_at n At_barrier3 g then release n Returned g else g)
         | Returned \<Rightarrow> (None, g))"

text \<open>
  A schedule is the list of the cores that make the next step, in order.  \<open>run_sync\<close>
  returns the copies performed, in the order in which they were performed, and the
  machine reached.
\<close>

fun run_sync ::
  "nat \<Rightarrow> nat list \<Rightarrow> bsp_machine \<Rightarrow> (nat \<times> ebsp_data_request) list \<times> bsp_machine" where
  "run_sync n [] g = ([], g)"
| "run_sync n (c # sched) g =
    (case sync_step n c g of
       (e, g1) \<Rightarrow>
         (case run_sync n sched g1 of
            (es, g2) \<Rightarrow> ((case e of None \<Rightarrow> es | Some x \<Rightarrow> x # es), g2)))"

text \<open>The requests that core \<open>c\<close> has recorded, in the order of the table.\<close>

definition pending_requests :: "nat \<Rightarrow> bsp_machine \<Rightarrow> ebsp_data_request list" where
  "pending_requests c g =
    map (data_requests (shared g) (ebsp_core_data.pid (cores g c)))
      [0..<unat (request_counter (cores g c))]"

definition copies_of :: "nat \<Rightarrow> (nat \<times> ebsp_data_request) list \<Rightarrow> ebsp_data_request list" where
  "copies_of c es = map snd (filter (\<lambda>e. fst e = c) es)"

text \<open>
  The phase of \<open>bsp_sync\<close> a core is in: before the first barrier, between the first and
  the second, between the second and the third, and after the third.  \<open>in_phase n k g\<close>
  says that all \<open>n\<close> cores are in phase \<open>k\<close>.
\<close>

fun pc_phase :: "sync_pc \<Rightarrow> nat" where
  "pc_phase At_barrier1 = 0"
| "pc_phase (Get_loop i) = Suc 0"
| "pc_phase At_barrier2 = Suc 0"
| "pc_phase (Put_loop i) = Suc (Suc 0)"
| "pc_phase At_barrier3 = Suc (Suc 0)"
| "pc_phase Returned = Suc (Suc (Suc 0))"

definition in_phase :: "nat \<Rightarrow> nat \<Rightarrow> bsp_machine \<Rightarrow> bool" where
  "in_phase n k g = (\<forall>c<n. pc_phase (pcs g c) = k)"

text \<open>
  The copies that core \<open>c\<close> has still to perform from the place it has reached: the
  get-flagged requests of the rest of the first loop and the put-flagged requests of the
  rest of the second, in the order of its table.
\<close>

definition remaining :: "nat \<Rightarrow> bsp_machine \<Rightarrow> ebsp_data_request list" where
  "remaining c g =
    (let reqs = data_requests (shared g) (ebsp_core_data.pid (cores g c));
         rc = unat (request_counter (cores g c))
     in case pcs g c of
          At_barrier1 \<Rightarrow> filter is_get (map reqs [0..<rc]) @ filter is_put (map reqs [0..<rc])
        | Get_loop i \<Rightarrow> filter is_get (map reqs [i..<rc]) @ filter is_put (map reqs [0..<rc])
        | At_barrier2 \<Rightarrow> filter is_put (map reqs [0..<rc])
        | Put_loop i \<Rightarrow> filter is_put (map reqs [i..<rc])
        | At_barrier3 \<Rightarrow> []
        | Returned \<Rightarrow> [])"

text \<open>
  Once a core has left the second loop of \<open>bsp_sync\<close>, the watermark is 0.
\<close>

definition reset_seen :: "nat \<Rightarrow> bsp_machine \<Rightarrow> bool" where
  "reset_seen n g =
    ((\<exists>c<n. pcs g c = At_barrier3 \<or> pcs g c = Returned) \<longrightarrow> buffer_size (shared g) = 0)"

text \<open>
  A call of the interface made by core \<open>c\<close> of the machine, and the moment at which all
  \<open>n\<close> cores have called \<open>bsp_sync\<close> and wait at its first barrier.
\<close>

definition call_on :: "ebsp_config \<Rightarrow> nat \<Rightarrow> bsp_call \<Rightarrow> bsp_machine \<Rightarrow> bsp_machine" where
  "call_on cfg c call g =
    (let s = exec_call cfg call (view c g)
     in g\<lparr>cores := (cores g)(c := coredata s), shared := comm_buf s, ram := mem s\<rparr>)"

definition enter_sync :: "nat \<Rightarrow> bsp_machine \<Rightarrow> bsp_machine" where
  "enter_sync n g = release n At_barrier1 g"

section \<open>Concrete configurations and states\<close>

text \<open>
  A small platform: two registration slots, two requests per core, a payload pool of 16
  bytes, two messages per queue, a grid with four columns, and an address translation that
  puts the core number into the upper bits.  \<open>test_state p\<close> is the state of core \<open>p\<close>
  right after \<open>bsp_begin\<close>, with an initial tag size of one byte.
\<close>

definition test_cfg :: ebsp_config where
  "test_cfg =
    \<lparr>MAX_BSP_VARS = Suc (Suc 0), MAX_DATA_REQUESTS = 2, MAX_PAYLOAD_SIZE = 16, MAX_MESSAGES = 2,
     group_cols = 4,
     e_get_global_address = (\<lambda>row col a. a + 0x100000 * word_of_int (4 * row + col + 1)),
     payload_buf = 0x8000\<rparr>"

definition test_coredata :: "int \<Rightarrow> ebsp_core_data" where
  "test_coredata p =
    \<lparr>ebsp_core_data.pid = p, nprocs = 2, request_counter = 0, var_pushed = 0,
     tag_size = 1, tag_size_next = 1, queue_index = 0, message_index = 0\<rparr>"

definition test_comm_buf :: ebsp_comm_buf where
  "test_comm_buf =
    \<lparr>data_requests = (\<lambda>p i. \<lparr>src = 0, dst = 0, ebsp_data_request.nbytes = 0\<rparr>),
     buffer_size = 0,
     message_queue = (\<lambda>qi. \<lparr>message = (\<lambda>i. \<lparr>ebsp_message_header.pid = 0, tag = 0,
                                  payload = 0, ebsp_message_header.nbytes = 0\<rparr>), count = 0\<rparr>),
     bsp_var_list = (\<lambda>slot p. 0),
     bsp_var_counter = 0,
     msgbuf = None,
     msgflag = 0\<rparr>"

definition test_state :: "int \<Rightarrow> bsp_state" where
  "test_state p = \<lparr>coredata = test_coredata p, comm_buf = test_comm_buf, mem = (\<lambda>a. 0)\<rparr>"

text \<open>
  The machine of two cores right after \<open>bsp_begin\<close>; the memory holds a tag byte at
  \<open>0x2900\<close> and the payload bytes 7 and 8 at \<open>0x2800\<close>.
\<close>

definition test_machine :: bsp_machine where
  "test_machine =
    \<lparr>cores = (\<lambda>c. test_coredata (int c)),
     pcs = (\<lambda>c. Returned),
     shared = test_comm_buf,
     ram = (\<lambda>a. 0)(0x2900 := 0x41, 0x2800 := 7, 0x2801 := 8)\<rparr>"

text \<open>
  The state of core 1 when the active queue holds one message of two bytes addressed to
  it, and when it holds a message for core 0 followed by one for core 1.
\<close>

definition one_message_state :: bsp_state where
  "one_message_state =
    \<lparr>coredata = test_coredata 1,
     comm_buf = test_comm_buf
       \<lparr>buffer_size := 2,
        message_queue := (message_queue test_comm_buf)
          (0 := \<lparr>message = (message (message_queue test_comm_buf 0))
                   (0 := \<lparr>ebsp_message_header.pid = 1, tag = 0x8000, payload = 0x8001,
                           ebsp_message_header.nbytes = 2\<rparr>),
                 count = 1\<rparr>)\<rparr>,
     mem = (\<lambda>a. 0)(0x8000 := 0x41, 0x8001 := 7, 0x8002 := 8)\<rparr>"

definition two_message_state :: bsp_state where
  "two_message_state =
    \<lparr>coredata = test_coredata 1,
     comm_buf = test_comm_buf
       \<lparr>buffer_size := 5,
        message_queue := (message_queue test_comm_buf)
          (0 := \<lparr>message = (message (message_queue test_comm_buf 0))
                   (0 := \<lparr>ebsp_message_header.pid = 0, tag = 0x8000, payload = 0x8001,
                           ebsp_message_header.nbytes = 3\<rparr>,
                    1 := \<lparr>ebsp_message_header.pid = 1, tag = 0x8003, payload = 0x8004,
                           ebsp_message_header.nbytes = 2\<rparr>),
                 count = 2\<rparr>)\<rparr>,
     mem = (\<lambda>a. 0)(0x8003 := 0x42, 0x8004 := 7, 0x8005 := 8)\<rparr>"

text \<open>
  Core 0 sends two messages to core 1 in one superstep: tag \<open>0x41\<close> with payload 7, 8
  and tag \<open>0x42\<close> with payload 9.
\<close>

definition after_first_send :: bsp_state where
  "after_first_send = snd (bsp_send test_cfg 1 0x2900 0x2800 2
      ((test_state 0)\<lparr>mem := (\<lambda>a. 0)(0x2900 := 0x41, 0x2800 := 7, 0x2801 := 8, 0x2a00 := 0x42, 0x2b00 := 9)\<rparr>))"

definition after_second_send :: bsp_state where
  "after_second_send = snd (bsp_send test_cfg 1 0x2a00 0x2b00 1 after_first_send)"

text \<open>
  Core 0 of the machine sends a message of two bytes to core 1; then both cores run
  \<open>bsp_sync\<close> under a schedule that takes them through the three barriers, and once
  more.
\<close>

definition sent_machine :: bsp_machine where
  "sent_machine = call_on test_cfg 0 (Send 1 0x2900 0x2800 2) test_machine"

definition synced_once :: bsp_machine where
  "synced_once = snd (run_sync 2 [0, 0, 1, 0, 0, 1, 0] (enter_sync 2 sent_machine))"

definition synced_twice :: bsp_machine where
  "synced_twice = snd (run_sync 2 [1, 1, 0, 1, 1, 0, 1] (enter_sync 2 synced_once))"

text \<open>
  Two registrations made: core 0 registered \<open>0x2100\<close> and then \<open>0x2000\<close>, core 1
  registered \<open>0x3000\<close> and then \<open>0x4000\<close>.  In \<open>reregistered_state\<close> core 0 registered
  \<open>0x2000\<close> both times.
\<close>

definition registered_state :: "int \<Rightarrow> bsp_state" where
  "registered_state p =
    (test_state p)\<lparr>comm_buf := test_comm_buf
       \<lparr>bsp_var_list := (\<lambda>slot q. if q = 0 then (if slot = 0 then 0x2100 else 0x2000)
                               else (if slot = 0 then 0x3000 else 0x4000)),
        bsp_var_counter := 2\<rparr>\<rparr>"

definition reregistered_state :: "int \<Rightarrow> bsp_state" where
  "reregistered_state p =
    (test_state p)\<lparr>comm_buf := test_comm_buf
       \<lparr>bsp_var_list := (\<lambda>slot q. if q = 0 then 0x2000
                               else (if slot = 0 then 0x3000 else 0x4000)),
        bsp_var_counter := 2\<rparr>\<rparr>"

text \<open>
  The machine of two cores with the two registrations above; the variable that core 1
  registered first holds 1 (at its translated address) and core 1 has 42 in a local
  buffer.  In \<open>requests_machine\<close> core 0 has called \<open>bsp_get\<close> for one byte of that
  variable into \<open>0x2200\<close> and core 1 has called \<open>bsp_put\<close> of 42 into the same variable;
  \<open>requests_synced\<close> is a run of \<open>bsp_sync\<close> on both cores in which core 1 reaches the
  second barrier before core 0 has started its first loop.
\<close>

definition registered_machine :: bsp_machine where
  "registered_machine =
    \<lparr>cores = (\<lambda>c. test_coredata (int c)),
     pcs = (\<lambda>c. Returned),
     shared = comm_buf (registered_state 0),
     ram = (\<lambda>a. 0)(0x203000 := 1, 0x3100 := 42)\<rparr>"

definition requests_machine :: bsp_machine where
  "requests_machine =
    call_on test_cfg 1 (Put 1 0x3100 0x3000 0 1)
      (call_on test_cfg 0 (Get 1 0x2100 0 0x2200 1) registered_machine)"

definition requests_synced :: "(nat \<times> ebsp_data_request) list \<times> bsp_machine" where
  "requests_synced =
    run_sync 2 [1, 1, 1, 1, 0, 0, 0, 1, 1, 0, 0, 1] (enter_sync 2 requests_machine)"

text \<open>
  Core 0 has the two registrations above and has put five bytes towards core 1.
\<close>

definition five_reserved_state :: bsp_state where
  "five_reserved_state = snd (bsp_put test_cfg 1 0x2800 0x2000 0 5 (registered_state 0))"

section \<open>Diagnostics: what a relayed message leaves unchanged\<close>

lemma ebsp_message_fields:
  "coredata (ebsp_message e s) = coredata s"
  "mem (ebsp_message e s) = mem s"
  "buffer_size (comm_buf (ebsp_message e s)) = buffer_size (comm_buf s)"
  "data_requests (comm_buf (ebsp_message e s)) = data_requests (comm_buf s)"
  "message_queue (comm_buf (ebsp_message e s)) = message_queue (comm_buf s)"
  "bsp_var_list (comm_buf (ebsp_message e s)) = bsp_var_list (comm_buf s)"
  "bsp_var_counter (comm_buf (ebsp_message e s)) = bsp_var_counter (comm_buf s)"
  "msgbuf (comm_buf (ebsp_message e s)) = Some e"
  by (simp_all add: ebsp_message_def)

lemmas test_defs = test_cfg_def test_coredata_def test_comm_buf_def test_state_def

section \<open>Registration\<close>

text \<open>
  C8.  \<open>bsp_push_reg\<close> relays \<open>err_pushreg_multiple\<close> (MultipleRegistration) when the
  calling core has \<open>var_pushed\<close> set; otherwise it relays \<open>err_pushreg_overflow\<close>
  (RegistrationOverflow) when \<open>bsp_var_counter\<close> equals \<open>MAX_BSP_VARS\<close>; otherwise it
  stores the address at \<open>bsp_var_list[bsp_var_counter][pid]\<close>, changes no other entry of
  the table, leaves the counter as it is and sets \<open>var_pushed\<close> to 1.  In both failing
  cases the state is the one before the call with the message relayed, so the table and
  the flag are as before.
\<close>

theorem bsp_push_reg_outcomes:
  "(var_pushed (coredata s) \<noteq> 0 \<longrightarrow>
      bsp_push_reg cfg variable n s
        = (Some err_pushreg_multiple, ebsp_message err_pushreg_multiple s))
   \<and> (var_pushed (coredata s) = 0 \<and> bsp_var_counter (comm_buf s) = MAX_BSP_VARS cfg \<longrightarrow>
      bsp_push_reg cfg variable n s
        = (Some err_pushreg_overflow, ebsp_message err_pushreg_overflow s))
   \<and> (var_pushed (coredata s) = 0 \<and> bsp_var_counter (comm_buf s) \<noteq> MAX_BSP_VARS cfg \<longrightarrow>
      (case bsp_push_reg cfg variable n s of
         (e, s') \<Rightarrow>
           e = None
           \<and> bsp_var_list (comm_buf s') (bsp_var_counter (comm_buf s))
                (ebsp_core_data.pid (coredata s)) = variable
           \<and> (\<forall>slot p. (slot, p) \<noteq> (bsp_var_counter (comm_buf s), ebsp_core_data.pid (coredata s))
                 \<longrightarrow> bsp_var_list (comm_buf s') slot p = bsp_var_list (comm_buf s) slot p)
           \<and> var_pushed (coredata s') = 1
           \<and> bsp_var_counter (comm_buf s') = bsp_var_counter (comm_buf s)))
   \<and> (fst (bsp_push_reg cfg variable n s) \<noteq> None \<longrightarrow>
        bsp_var_list (comm_buf (snd (bsp_push_reg cfg variable n s))) = bsp_var_list (comm_buf s)
        \<and> var_pushed (coredata (snd (bsp_push_reg cfg variable n s))) = var_pushed (coredata s))"
  by (auto simp add: bsp_push_reg_def ebsp_message_fields)

theorem bsp_push_reg_outcomes_witness:
  "fst (bsp_push_reg test_cfg 0x2000 4 (test_state 1)) = None
   \<and> bsp_var_list (comm_buf (snd (bsp_push_reg test_cfg 0x2000 4 (test_state 1)))) 0 1 = 0x2000
   \<and> var_pushed (coredata (snd (bsp_push_reg test_cfg 0x2000 4 (test_state 1)))) = 1
   \<and> fst (bsp_push_reg test_cfg 0x2004 4 (snd (bsp_push_reg test_cfg 0x2000 4 (test_state 1))))
       = Some err_pushreg_multiple
   \<and> fst (bsp_push_reg test_cfg 0x2000 4
         ((test_state 1)\<lparr>comm_buf := test_comm_buf\<lparr>bsp_var_counter := Suc (Suc 0)\<rparr>\<rparr>))
       = Some err_pushreg_overflow"
  using bsp_push_reg_outcomes [of "test_state 1" test_cfg "0x2000" 4]
    bsp_push_reg_outcomes [of "snd (bsp_push_reg test_cfg 0x2000 4 (test_state 1))" test_cfg "0x2004" 4]
    bsp_push_reg_outcomes [of "(test_state 1)\<lparr>comm_buf := test_comm_buf\<lparr>bsp_var_counter := Suc (Suc 0)\<rparr>\<rparr>" test_cfg "0x2000" 4]
  by (simp add: test_defs split: prod.splits)

text \<open>
  C10.  The result of \<open>bsp_push_reg\<close> (message relayed, registration table, flag and all
  the rest of the state) does not depend on the size argument.
\<close>

theorem bsp_push_reg_ignores_nbytes:
  "bsp_push_reg cfg variable n1 s = bsp_push_reg cfg variable n2 s"
  by (simp add: bsp_push_reg_def)

section \<open>Address resolution\<close>

lemma search_slot_first:
  "k < n \<Longrightarrow> tbl (slot + k) me = a \<Longrightarrow> \<forall>j<k. tbl (slot + j) me \<noteq> a
     \<Longrightarrow> search_slot tbl me a slot n = Some (slot + k)"
proof (induction n arbitrary: slot k)
  case 0
  then show ?case by simp
next
  case (Suc n)
  show ?case
  proof (cases k)
    case 0
    with Suc.prems show ?thesis by simp
  next
    case (Suc k')
    from Suc.prems(3) Suc have here: "tbl slot me \<noteq> a"
      by (metis add.right_neutral zero_less_Suc)
    have "search_slot tbl me a (Suc slot) n = Some (Suc slot + k')"
    proof (rule Suc.IH)
      show "k' < n" using Suc.prems(1) Suc by simp
      show "tbl (Suc slot + k') me = a" using Suc.prems(2) Suc by simp
      show "\<forall>j<k'. tbl (Suc slot + j) me \<noteq> a"
        using Suc.prems(3) Suc by (metis Suc_less_eq add_Suc_shift)
    qed
    with here Suc show ?thesis by simp
  qed
qed

lemma search_slot_none:
  "\<forall>j<n. tbl (slot + j) me \<noteq> a \<Longrightarrow> search_slot tbl me a slot n = None"
proof (induction n arbitrary: slot)
  case 0
  then show ?case by simp
next
  case (Suc n)
  from Suc.prems have here: "tbl slot me \<noteq> a"
    by (metis add.right_neutral zero_less_Suc)
  have "search_slot tbl me a (Suc slot) n = None"
  proof (rule Suc.IH)
    show "\<forall>j<n. tbl (Suc slot + j) me \<noteq> a"
      using Suc.prems by (metis Suc_less_eq add_Suc_shift)
  qed
  with here show ?case by simp
qed

text \<open>
  C2 (amended).  Let \<open>k\<close> be the lowest slot in the calling core's column of the
  registration table whose entry equals the given address \<open>a\<close>.  Then
  \<open>_get_remote_addr\<close> for \<open>(p, a, offset)\<close> returns the translation, for the grid
  position of \<open>p\<close>, of the entry of core \<open>p\<close> in slot \<open>k\<close> plus the offset, relays
  nothing and changes nothing.  This holds for any calling core, so from A towards B and
  from B towards A.  When no slot of the caller's column equals \<open>a\<close>, it relays
  \<open>err_var_not_found\<close> (VariableNotFound) with \<open>p\<close> and \<open>a\<close> and returns the null
  pointer.
\<close>

theorem get_remote_addr_first_match:
  "(k < MAX_BSP_VARS cfg
      \<and> bsp_var_list (comm_buf s) k (ebsp_core_data.pid (coredata s)) = a
      \<and> (\<forall>j<k. bsp_var_list (comm_buf s) j (ebsp_core_data.pid (coredata s)) \<noteq> a)
    \<longrightarrow> get_remote_addr cfg p a offset s
          = (None,
             e_get_global_address cfg (row_from_pid cfg p) (col_from_pid cfg p)
               (bsp_var_list (comm_buf s) k p + offset),
             s))
   \<and> ((\<forall>j<MAX_BSP_VARS cfg. bsp_var_list (comm_buf s) j (ebsp_core_data.pid (coredata s)) \<noteq> a)
    \<longrightarrow> get_remote_addr cfg p a offset s
          = (Some (err_var_not_found p a), 0, ebsp_message (err_var_not_found p a) s))"
proof (intro conjI impI)
  assume h: "k < MAX_BSP_VARS cfg
      \<and> bsp_var_list (comm_buf s) k (ebsp_core_data.pid (coredata s)) = a
      \<and> (\<forall>j<k. bsp_var_list (comm_buf s) j (ebsp_core_data.pid (coredata s)) \<noteq> a)"
  then have "search_slot (bsp_var_list (comm_buf s)) (ebsp_core_data.pid (coredata s)) a 0
      (MAX_BSP_VARS cfg) = Some (0 + k)"
    by (intro search_slot_first) simp_all
  then show "get_remote_addr cfg p a offset s
          = (None,
             e_get_global_address cfg (row_from_pid cfg p) (col_from_pid cfg p)
               (bsp_var_list (comm_buf s) k p + offset),
             s)"
    by (simp add: get_remote_addr_def)
next
  assume "\<forall>j<MAX_BSP_VARS cfg. bsp_var_list (comm_buf s) j (ebsp_core_data.pid (coredata s)) \<noteq> a"
  then have "search_slot (bsp_var_list (comm_buf s)) (ebsp_core_data.pid (coredata s)) a 0
      (MAX_BSP_VARS cfg) = None"
    by (intro search_slot_none) simp
  then show "get_remote_addr cfg p a offset s
          = (Some (err_var_not_found p a), 0, ebsp_message (err_var_not_found p a) s)"
    by (simp add: get_remote_addr_def)
qed

theorem get_remote_addr_first_match_witness:
  "get_remote_addr test_cfg 1 0x2000 8 (registered_state 0)
     = (None, 0x204008, registered_state 0)
   \<and> get_remote_addr test_cfg 0 0x4000 8 (registered_state 1)
     = (None, 0x102008, registered_state 1)
   \<and> get_remote_addr test_cfg 1 0x2222 8 (registered_state 0)
     = (Some (err_var_not_found 1 0x2222), 0,
        ebsp_message (err_var_not_found 1 0x2222) (registered_state 0))"
  using get_remote_addr_first_match [of "Suc 0" test_cfg "registered_state 0" "0x2000" 1 8]
    get_remote_addr_first_match [of "Suc 0" test_cfg "registered_state 1" "0x4000" 0 8]
    get_remote_addr_first_match [of 0 test_cfg "registered_state 0" "0x2222" 1 8]
  by (simp add: test_defs registered_state_def row_from_pid_def col_from_pid_def
      signed_divide_int_def signed_modulo_int_def)

text \<open>
  The claim as stated, for any slot \<open>k\<close> that holds \<open>a\<close> for the caller, fails when the
  caller has registered the same address in an earlier slot as well: the search stops at
  the first match.  Here core 0 registered \<open>0x2000\<close> in slots 0 and 1 and core 1
  registered \<open>0x3000\<close> and \<open>0x4000\<close>; for \<open>k = 1\<close> the claim promises the translation of
  \<open>0x4000\<close>, the code returns the translation of \<open>0x3000\<close>.
\<close>

theorem get_remote_addr_kth_counterexample:
  "Suc 0 < MAX_BSP_VARS test_cfg
   \<and> bsp_var_list (comm_buf (reregistered_state 0)) (Suc 0) 0 = 0x2000
   \<and> bsp_var_list (comm_buf (reregistered_state 0)) (Suc 0) 1 = 0x4000
   \<and> fst (snd (get_remote_addr test_cfg 1 0x2000 0 (reregistered_state 0)))
       \<noteq> e_get_global_address test_cfg (row_from_pid test_cfg 1) (col_from_pid test_cfg 1)
            (0x4000 + 0)
   \<and> fst (snd (get_remote_addr test_cfg 1 0x2000 0 (reregistered_state 0)))
       = e_get_global_address test_cfg (row_from_pid test_cfg 1) (col_from_pid test_cfg 1)
            (0x3000 + 0)"
  by (simp add: get_remote_addr_def test_defs reregistered_state_def row_from_pid_def col_from_pid_def
      signed_divide_int_def signed_modulo_int_def)

section \<open>Evaluation of concrete runs\<close>

lemma all_at_2: "all_at 2 pc g \<longleftrightarrow> pcs g 0 = pc \<and> pcs g 1 = pc"
  by (simp add: all_at_def numeral_2_eq_2)

lemmas machine_eval = call_on_def view_def enter_sync_def release_def sync_step_def
  sync_finish_def all_at_2 get_iteration_def put_iteration_def is_get_def is_put_def
  apply_request_def DATA_PUT_BIT_def

lemmas queue_eval = bsp_send_def bsp_get_tag_def bsp_qsize_def bsp_move_def
  next_queue_message_def pop_queue_message_def scan_queue.simps qsize_loop.simps
  Let_def memcpy_def unsigned_minus_1_eq_mask mask_eq_exp_minus_1
  word_le_nat_alt word_less_nat_alt

lemmas put_eval = bsp_put_def Let_def get_remote_addr_def row_from_pid_def col_from_pid_def
  signed_divide_int_def signed_modulo_int_def registered_state_def test_defs
  word_le_nat_alt word_less_nat_alt

section \<open>Consuming messages\<close>

lemma scan_queue_found:
  "mi \<le> j \<Longrightarrow> j < qsize \<Longrightarrow> ebsp_message_header.pid (msgs (unat j)) = me
   \<Longrightarrow> (\<forall>i. mi \<le> i \<and> i < j \<longrightarrow> ebsp_message_header.pid (msgs (unat i)) \<noteq> me)
   \<Longrightarrow> scan_queue msgs me qsize mi = j"
proof (induction msgs me qsize mi rule: scan_queue.induct)
  case (1 msgs me qsize mi)
  from "1.prems" have lt: "mi < qsize" by simp
  show ?case
  proof (cases "ebsp_message_header.pid (msgs (unat mi)) \<noteq> me")
    case True
    with "1.prems" have "mi \<noteq> j" by auto
    with "1.prems"(1) have less: "mi < j" by simp
    then have le: "mi + 1 \<le> j" by (rule inc_le)
    have "\<forall>i. mi + 1 \<le> i \<and> i < j \<longrightarrow> ebsp_message_header.pid (msgs (unat i)) \<noteq> me"
    proof (intro allI impI)
      fix i assume a: "mi + 1 \<le> i \<and> i < j"
      from less a have "mi \<le> i" by uint_arith
      with a "1.prems"(4) show "ebsp_message_header.pid (msgs (unat i)) \<noteq> me" by blast
    qed
    with "1.IH" [OF lt True le "1.prems"(2) "1.prems"(3)]
    have "scan_queue msgs me qsize (mi + 1) = j" by simp
    with lt True show ?thesis by (subst scan_queue.simps) simp
  next
    case False
    have "mi = j"
    proof (rule ccontr)
      assume "mi \<noteq> j"
      with "1.prems"(1) have "mi < j" by simp
      with "1.prems"(4) False show False by auto
    qed
    with lt False show ?thesis by (subst scan_queue.simps) simp
  qed
qed

lemma memcpy_zero: "memcpy d s 0 m = m"
  by (simp add: memcpy_def)

text \<open>
  C9.  Let \<open>j\<close> be the first position at or after the cursor, below the count of the
  active queue, whose message is addressed to the calling core, and \<open>m\<close> that message.
  Then \<open>bsp_move\<close> sets the cursor to \<open>j + 1\<close> and changes nothing else but the memory,
  into which it copies \<open>len\<close> bytes from \<open>m\<close>'s payload to the caller's buffer.  For an
  empty receive buffer nothing is copied; otherwise \<open>len\<close>, as an \<open>int\<close>, is the
  smaller of the buffer size and \<open>m\<close>'s byte count.
\<close>

theorem bsp_move_first_own_message:
  fixes s :: bsp_state and a_payload bufsize j :: "32 word"
  defines "q \<equiv> message_queue (comm_buf s) (unat (queue_index (coredata s)))"
  defines "m \<equiv> message q (unat j)"
  defines "len \<equiv> (if bufsize = 0 then 0
                  else if sint (ebsp_message_header.nbytes m) < sint bufsize
                       then ebsp_message_header.nbytes m else bufsize)"
  assumes "message_index (coredata s) \<le> j" and "j < count q"
    and "ebsp_message_header.pid m = ebsp_core_data.pid (coredata s)"
    and "\<forall>i. message_index (coredata s) \<le> i \<and> i < j
           \<longrightarrow> ebsp_message_header.pid (message q (unat i)) \<noteq> ebsp_core_data.pid (coredata s)"
  shows "bsp_move a_payload bufsize s
           = s\<lparr>coredata := (coredata s)\<lparr>message_index := j + 1\<rparr>,
               mem := memcpy a_payload (payload m) len (mem s)\<rparr>
         \<and> (bufsize = 0 \<longrightarrow> mem (bsp_move a_payload bufsize s) = mem s)
         \<and> (bufsize \<noteq> 0 \<longrightarrow>
               sint len = min (sint bufsize) (sint (ebsp_message_header.nbytes m)))"
proof -
  have scan: "scan_queue (message q) (ebsp_core_data.pid (coredata s)) (count q)
      (message_index (coredata s)) = j"
    using assms(4-7) unfolding m_def by (intro scan_queue_found) simp_all
  have next_msg: "next_queue_message s
      = (Some m, s\<lparr>coredata := (coredata s)\<lparr>message_index := j\<rparr>\<rparr>)"
    using scan assms(5) by (simp add: next_queue_message_def Let_def q_def [symmetric] m_def)
  have move: "bsp_move a_payload bufsize s
           = s\<lparr>coredata := (coredata s)\<lparr>message_index := j + 1\<rparr>,
               mem := memcpy a_payload (payload m) len (mem s)\<rparr>"
    by (simp add: bsp_move_def next_msg pop_queue_message_def Let_def len_def memcpy_zero)
  have zero: "bufsize = 0 \<longrightarrow> mem (bsp_move a_payload bufsize s) = mem s"
    using move by (auto simp add: len_def memcpy_zero)
  have minimum: "bufsize \<noteq> 0 \<longrightarrow>
      sint len = min (sint bufsize) (sint (ebsp_message_header.nbytes m))"
    by (simp add: len_def min_def)
  from move zero minimum show ?thesis by blast
qed

theorem bsp_move_first_own_message_witness:
  "bsp_move 0x2000 1 two_message_state
     = two_message_state
         \<lparr>coredata := (coredata two_message_state)\<lparr>message_index := 2\<rparr>,
          mem := (mem two_message_state)(0x2000 := 7)\<rparr>
   \<and> mem (bsp_move 0x2000 1 two_message_state) 0x2000 = 7
   \<and> mem (bsp_move 0x2000 1 two_message_state) 0x2001 = 0
   \<and> bsp_move 0x2000 0 two_message_state
     = two_message_state\<lparr>coredata := (coredata two_message_state)\<lparr>message_index := 2\<rparr>\<rparr>"
proof -
  have cp: "memcpy 0x2000 0x8004 1 (mem two_message_state) = (mem two_message_state)(0x2000 := 7)"
    by (rule ext) (simp add: memcpy_def two_message_state_def unat_eq_zero)
  have m1: "bsp_move 0x2000 1 two_message_state
     = two_message_state
         \<lparr>coredata := (coredata two_message_state)\<lparr>message_index := 2\<rparr>,
          mem := (mem two_message_state)(0x2000 := 7)\<rparr>"
    using bsp_move_first_own_message [of two_message_state 1 "0x2000" 1] cp
    by (simp add: two_message_state_def test_defs word_less_1)
  have m0: "bsp_move 0x2000 0 two_message_state
     = two_message_state\<lparr>coredata := (coredata two_message_state)\<lparr>message_index := 2\<rparr>\<rparr>"
    using bsp_move_first_own_message [of two_message_state 1 "0x2000" 0]
    by (simp add: two_message_state_def test_defs word_less_1 memcpy_zero)
  show ?thesis
    by (simp add: m1 m0) (simp add: two_message_state_def)
qed

section \<open>The queue-size query\<close>

lemma qsize_loop_packets:
  "fst (snd (qsize_loop msgs me qsize mi pk acc)) = pk"
proof (induction msgs me qsize mi pk acc rule: qsize_loop.induct)
  case (1 msgs me qsize mi pk acc)
  then show ?case by (subst qsize_loop.simps) simp
qed

lemma bsp_qsize_packets_zero: "fst (bsp_qsize s) = 0"
proof -
  obtain mi pk acc where r: "qsize_loop
      (message (message_queue (comm_buf s) (unat (queue_index (coredata s)))))
      (ebsp_core_data.pid (coredata s))
      (count (message_queue (comm_buf s) (unat (queue_index (coredata s)))))
      (message_index (coredata s)) 0 0 = (mi, pk, acc)"
    by (metis prod_cases3)
  with qsize_loop_packets [of "message (message_queue (comm_buf s) (unat (queue_index (coredata s))))"
      "ebsp_core_data.pid (coredata s)"
      "count (message_queue (comm_buf s) (unat (queue_index (coredata s))))"
      "message_index (coredata s)" 0 0]
  have "pk = 0" by simp
  with r show ?thesis by (simp add: bsp_qsize_def Let_def)
qed

text \<open>
  C4.  The code at the input of the claim: the active queue holds one message of two
  bytes for core 1.  \<open>bsp_qsize\<close> on core 1 reports 0 packets (\<open>bsp_qsize_packets_zero\<close>:
  it reports 0 in every state) and 2 bytes, and leaves the cursor at 1, behind the
  message, which \<open>_next_queue_message\<close> found before the query and does not find
  after it.
\<close>

theorem bsp_qsize_one_message:
  "bsp_qsize one_message_state
     = (0, 2, one_message_state\<lparr>coredata := (coredata one_message_state)\<lparr>message_index := 1\<rparr>\<rparr>)
   \<and> fst (next_queue_message one_message_state)
     = Some \<lparr>ebsp_message_header.pid = 1, tag = 0x8000, payload = 0x8001,
             ebsp_message_header.nbytes = 2\<rparr>
   \<and> fst (next_queue_message (snd (snd (bsp_qsize one_message_state)))) = None
   \<and> fst (bsp_get_tag 0x2000 (snd (snd (bsp_qsize one_message_state)))) = - 1"
  by (simp add: queue_eval one_message_state_def test_defs)

section \<open>What \<open>bsp_send\<close> reserves\<close>

lemma bsp_send_advance:
  "fst (bsp_send cfg p a_tag a_payload n s) = None
   \<Longrightarrow> buffer_size (comm_buf (snd (bsp_send cfg p a_tag a_payload n s)))
       = buffer_size (comm_buf s) + n"
  by (simp add: bsp_send_def Let_def split: if_splits)

text \<open>
  C5.  The code at a failing input: tag size 1, watermark 0, core 0 sends two bytes and
  then one byte to core 1.  The first message has its tag at \<open>0x8000\<close> and its payload
  at \<open>0x8001\<close> and \<open>0x8002\<close>, and the watermark after it is 2, not 3
  (\<open>bsp_send_advance\<close>: a successful send advances the watermark by \<open>nbytes\<close>).  The
  second message gets its tag at \<open>0x8002\<close>, and the second payload byte of the first
  message, 8, is overwritten by the tag \<open>0x42\<close>.
\<close>

theorem bsp_send_regions_overlap:
  "tag_size (coredata (test_state 0)) = 1
   \<and> buffer_size (comm_buf (test_state 0)) = 0
   \<and> fst (bsp_send test_cfg 1 0x2900 0x2800 2
        ((test_state 0)\<lparr>mem := (\<lambda>a. 0)(0x2900 := 0x41, 0x2800 := 7, 0x2801 := 8, 0x2a00 := 0x42, 0x2b00 := 9)\<rparr>)) = None
   \<and> buffer_size (comm_buf after_first_send) = 2
   \<and> message (message_queue (comm_buf after_first_send) 0) 0
       = \<lparr>ebsp_message_header.pid = 1, tag = 0x8000, payload = 0x8001, ebsp_message_header.nbytes = 2\<rparr>
   \<and> mem after_first_send 0x8001 = 7 \<and> mem after_first_send 0x8002 = 8
   \<and> fst (bsp_send test_cfg 1 0x2a00 0x2b00 1 after_first_send) = None
   \<and> message (message_queue (comm_buf after_second_send) 0) 1
       = \<lparr>ebsp_message_header.pid = 1, tag = 0x8002, payload = 0x8003, ebsp_message_header.nbytes = 1\<rparr>
   \<and> mem after_second_send 0x8001 = 7 \<and> mem after_second_send 0x8002 = 0x42"
  by (simp add: after_second_send_def after_first_send_def queue_eval test_defs)

section \<open>Visibility of messages across supersteps\<close>

text \<open>
  C3.  The code at a failing input: core 0 sends two bytes to core 1 in superstep K.
  Still in superstep K core 1 finds the message: \<open>bsp_get_tag\<close> returns its size 2,
  \<open>bsp_qsize\<close> reports 2 bytes, \<open>bsp_move\<close> copies the payload.  After both cores have
  run \<open>bsp_sync\<close>, in superstep K+1, \<open>bsp_get_tag\<close> returns -1 and \<open>bsp_qsize\<close>
  reports 0 bytes.  After a second \<open>bsp_sync\<close>, in superstep K+2, the message is found
  again.
\<close>

theorem bsp_send_visible_in_same_superstep:
  "fst (bsp_get_tag 0x2a00 (view 1 sent_machine)) = 2
   \<and> fst (snd (bsp_qsize (view 1 sent_machine))) = 2
   \<and> mem (bsp_move 0x2b00 2 (view 1 sent_machine)) 0x2b00 = 7
   \<and> all_at 2 Returned synced_once
   \<and> fst (bsp_get_tag 0x2a00 (view 1 synced_once)) = - 1
   \<and> fst (snd (bsp_qsize (view 1 synced_once))) = 0
   \<and> all_at 2 Returned synced_twice
   \<and> fst (bsp_get_tag 0x2a00 (view 1 synced_twice)) = 2"
proof -
  have k: "fst (bsp_get_tag 0x2a00 (view 1 sent_machine)) = 2
      \<and> fst (snd (bsp_qsize (view 1 sent_machine))) = 2
      \<and> mem (bsp_move 0x2b00 2 (view 1 sent_machine)) 0x2b00 = 7"
    by (simp add: sent_machine_def test_machine_def test_defs machine_eval queue_eval)
  have k1: "all_at 2 Returned synced_once
      \<and> fst (bsp_get_tag 0x2a00 (view 1 synced_once)) = - 1
      \<and> fst (snd (bsp_qsize (view 1 synced_once))) = 0"
    by (simp add: synced_once_def sent_machine_def test_machine_def test_defs machine_eval queue_eval)
  have k2: "all_at 2 Returned synced_twice
      \<and> fst (bsp_get_tag 0x2a00 (view 1 synced_twice)) = 2"
    by (simp add: synced_twice_def synced_once_def sent_machine_def test_machine_def test_defs
        machine_eval queue_eval)
  from k k1 k2 show ?thesis by blast
qed

section \<open>Gets before puts\<close>

lemma all_at_iff: "all_at n pc g \<longleftrightarrow> (\<forall>c<n. pcs g c = pc)"
  by (auto simp add: all_at_def list_all_iff)

lemma is_put_iff: "is_put r \<longleftrightarrow> \<not> is_get r"
  by (simp add: is_put_def is_get_def)

lemma in_phase_release:
  "in_phase n (pc_phase pc) (release n pc g)"
  by (simp add: in_phase_def release_def)

lemma in_phase_pcs_upd:
  "in_phase n k g \<Longrightarrow> pc_phase pc = k \<Longrightarrow> pcs g' = (pcs g)(c := pc) \<Longrightarrow> in_phase n k g'"
  by (simp add: in_phase_def)

lemma sync_step_phase:
  assumes ph: "in_phase n k g" and st: "sync_step n c g = (e, g')"
  shows "(in_phase n k g' \<or> in_phase n (Suc k) g')
         \<and> (\<forall>x. e = Some x \<longrightarrow> (k = Suc 0 \<and> is_get (snd x)) \<or> (k = Suc (Suc 0) \<and> is_put (snd x)))"
proof (cases "c < n")
  case False
  with st ph show ?thesis by (simp add: sync_step_def)
next
  case True
  with ph have k: "pc_phase (pcs g c) = k" by (simp add: in_phase_def)
  show ?thesis
  proof (cases "pcs g c")
    case At_barrier1
    with k have k0: "k = 0" by simp
    from st True At_barrier1
    have e: "e = None" and g': "g' = (if all_at n At_barrier1 g then release n (Get_loop 0) g else g)"
      by (simp_all add: sync_step_def Let_def)
    have "in_phase n k g' \<or> in_phase n (Suc k) g'"
      using g' ph k0 in_phase_release [of n "Get_loop 0" g] by (cases "all_at n At_barrier1 g") simp_all
    with e show ?thesis by simp
  next
    case (Get_loop i)
    with k have k1: "k = Suc 0" by simp
    let ?reqs = "data_requests (shared g) (ebsp_core_data.pid (cores g c))"
    show ?thesis
    proof (cases "i < unat (request_counter (cores g c))")
      case lt: True
      from st True Get_loop lt
      have e: "e = (if is_get (?reqs i) then Some (c, ?reqs i) else None)"
        and g': "pcs g' = (pcs g)(c := Get_loop (Suc i))"
        by (auto simp add: sync_step_def Let_def)
      from ph g' k1 have "in_phase n k g'" by (intro in_phase_pcs_upd [of n k g "Get_loop (Suc i)" g' c]) simp_all
      with e k1 show ?thesis by (simp split: if_splits)
    next
      case ge: False
      from st True Get_loop ge
      have e: "e = None" and g': "pcs g' = (pcs g)(c := At_barrier2)"
        by (auto simp add: sync_step_def Let_def)
      from ph g' k1 have "in_phase n k g'" by (intro in_phase_pcs_upd [of n k g At_barrier2 g' c]) simp_all
      with e show ?thesis by simp
    qed
  next
    case At_barrier2
    with k have k1: "k = Suc 0" by simp
    from st True At_barrier2
    have e: "e = None" and g': "g' = (if all_at n At_barrier2 g then release n (Put_loop 0) g else g)"
      by (simp_all add: sync_step_def Let_def)
    have "in_phase n k g' \<or> in_phase n (Suc k) g'"
      using g' ph k1 in_phase_release [of n "Put_loop 0" g] by (cases "all_at n At_barrier2 g") simp_all
    with e show ?thesis by simp
  next
    case (Put_loop i)
    with k have k2: "k = Suc (Suc 0)" by simp
    let ?reqs = "data_requests (shared g) (ebsp_core_data.pid (cores g c))"
    show ?thesis
    proof (cases "i < unat (request_counter (cores g c))")
      case lt: True
      from st True Put_loop lt
      have e: "e = (if is_put (?reqs i) then Some (c, ?reqs i) else None)"
        and g': "pcs g' = (pcs g)(c := Put_loop (Suc i))"
        by (auto simp add: sync_step_def Let_def)
      from ph g' k2 have "in_phase n k g'" by (intro in_phase_pcs_upd [of n k g "Put_loop (Suc i)" g' c]) simp_all
      with e k2 show ?thesis by (simp split: if_splits)
    next
      case ge: False
      from st True Put_loop ge
      have e: "e = None" and g': "pcs g' = (pcs g)(c := At_barrier3)"
        by (auto simp add: sync_step_def Let_def)
      from ph g' k2 have "in_phase n k g'" by (intro in_phase_pcs_upd [of n k g At_barrier3 g' c]) simp_all
      with e show ?thesis by simp
    qed
  next
    case At_barrier3
    with k have k2: "k = Suc (Suc 0)" by simp
    from st True At_barrier3
    have e: "e = None" and g': "g' = (if all_at n At_barrier3 g then release n Returned g else g)"
      by (simp_all add: sync_step_def Let_def)
    have "in_phase n k g' \<or> in_phase n (Suc k) g'"
      using g' ph k2 in_phase_release [of n Returned g] by (cases "all_at n At_barrier3 g") simp_all
    with e show ?thesis by simp
  next
    case Returned
    with st True ph show ?thesis by (simp add: sync_step_def Let_def)
  qed
qed


lemma run_sync_Cons:
  "run_sync n (c # sched) g = (es, g')
   \<Longrightarrow> \<exists>e g1 es1. sync_step n c g = (e, g1) \<and> run_sync n sched g1 = (es1, g')
         \<and> es = (case e of None \<Rightarrow> es1 | Some x \<Rightarrow> x # es1)"
  by (auto split: prod.splits)

lemma run_sync_ordered:
  "in_phase n k g \<Longrightarrow> run_sync n sched g = (es, g')
   \<Longrightarrow> \<exists>gs ps. es = gs @ ps
         \<and> (\<forall>e\<in>set gs. is_get (snd e)) \<and> (\<forall>e\<in>set ps. is_put (snd e))
         \<and> (Suc (Suc 0) \<le> k \<longrightarrow> gs = [])"
proof (induction sched arbitrary: g k es)
  case Nil
  then show ?case by simp
next
  case (Cons c sched)
  from Cons.prems(2) obtain e g1 es1
    where st: "sync_step n c g = (e, g1)" and rest: "run_sync n sched g1 = (es1, g')"
      and es: "es = (case e of None \<Rightarrow> es1 | Some x \<Rightarrow> x # es1)"
    using run_sync_Cons by blast
  from sync_step_phase [OF Cons.prems(1) st]
  have next_phase: "in_phase n k g1 \<or> in_phase n (Suc k) g1"
    and ev: "\<forall>x. e = Some x \<longrightarrow>
        (k = Suc 0 \<and> is_get (snd x)) \<or> (k = Suc (Suc 0) \<and> is_put (snd x))"
    by simp_all
  from next_phase obtain k' where k': "in_phase n k' g1" and kk': "k \<le> k'"
    by (metis le_refl le_SucI)
  from Cons.IH [OF k' rest] obtain gs ps
    where split: "es1 = gs @ ps" and gets: "\<forall>e\<in>set gs. is_get (snd e)"
      and puts: "\<forall>e\<in>set ps. is_put (snd e)" and late: "Suc (Suc 0) \<le> k' \<longrightarrow> gs = []"
    by blast
  show ?case
  proof (cases e)
    case None
    with es split gets puts late kk' show ?thesis
      by (metis le_trans option.simps(4))
  next
    case (Some x)
    with ev consider (get) "k = Suc 0" "is_get (snd x)" | (put) "k = Suc (Suc 0)" "is_put (snd x)"
      by blast
    then show ?thesis
    proof cases
      case get
      have "es = (x # gs) @ ps" using es Some split by simp
      moreover have "\<forall>e\<in>set (x # gs). is_get (snd e)" using get gets by simp
      moreover have "Suc (Suc 0) \<le> k \<longrightarrow> x # gs = []" using get by simp
      ultimately show ?thesis using puts by blast
    next
      case put
      with kk' late have "gs = []" by simp
      with es Some split have "es = [] @ (x # ps)" by simp
      moreover have "\<forall>e\<in>set (x # ps). is_put (snd e)" using put puts by simp
      ultimately show ?thesis by (metis empty_iff list.set(1))
    qed
  qed
qed

lemma sync_step_ram:
  "sync_step n c g = (e, g')
   \<Longrightarrow> ram g' = (case e of None \<Rightarrow> ram g | Some x \<Rightarrow> apply_request (snd x) (ram g))"
  by (cases "pcs g c")
    (auto simp add: sync_step_def Let_def release_def get_iteration_def put_iteration_def
      split: if_splits)

lemma run_sync_ram:
  "run_sync n sched g = (es, g')
   \<Longrightarrow> ram g' = fold (\<lambda>e. apply_request (snd e)) es (ram g)"
proof (induction sched arbitrary: g es)
  case Nil
  then show ?case by simp
next
  case (Cons c sched)
  from Cons.prems obtain e g1 es1
    where st: "sync_step n c g = (e, g1)" and rest: "run_sync n sched g1 = (es1, g')"
      and es: "es = (case e of None \<Rightarrow> es1 | Some x \<Rightarrow> x # es1)"
    using run_sync_Cons by blast
  from Cons.IH [OF rest] sync_step_ram [OF st] es show ?case
    by (cases e) simp_all
qed

lemma run_sync_append:
  "run_sync n (sched1 @ sched2) g
   = (case run_sync n sched1 g of
        (es1, g1) \<Rightarrow> (case run_sync n sched2 g1 of (es2, g2) \<Rightarrow> (es1 @ es2, g2)))"
  by (induction sched1 arbitrary: g) (auto split: prod.splits option.splits)

lemma remaining_cong:
  "pcs g' c = pcs g c \<Longrightarrow> cores g' c = cores g c
   \<Longrightarrow> data_requests (shared g') = data_requests (shared g)
   \<Longrightarrow> remaining c g' = remaining c g"
  by (simp add: remaining_def)

lemma remaining_release:
  "c < n \<Longrightarrow> all_at n At_barrier1 g \<Longrightarrow> remaining c (release n (Get_loop 0) g) = remaining c g"
  "c < n \<Longrightarrow> all_at n At_barrier2 g \<Longrightarrow> remaining c (release n (Put_loop 0) g) = remaining c g"
  "c < n \<Longrightarrow> all_at n At_barrier3 g \<Longrightarrow> remaining c (release n Returned g) = remaining c g"
  by (simp_all add: remaining_def Let_def release_def all_at_iff)

lemma sync_finish_data_requests:
  "data_requests (comm_buf (sync_finish s)) = data_requests (comm_buf s)"
  by (simp add: sync_finish_def Let_def)

lemma copies_of_simps:
  "copies_of c [] = []"
  "copies_of c (x # es) = (if fst x = c then snd x # copies_of c es else copies_of c es)"
  "copies_of c (es1 @ es2) = copies_of c es1 @ copies_of c es2"
  by (simp_all add: copies_of_def)

lemma sync_step_remaining:
  assumes c': "c' < n" and st: "sync_step n c g = (e, g')"
  shows "copies_of c' (case e of None \<Rightarrow> [] | Some x \<Rightarrow> [x]) @ remaining c' g' = remaining c' g"
proof (cases "c < n")
  case False
  with st show ?thesis by (simp add: sync_step_def copies_of_simps)
next
  case True
  let ?reqs = "data_requests (shared g) (ebsp_core_data.pid (cores g c))"
  let ?rc = "unat (request_counter (cores g c))"
  show ?thesis
  proof (cases "pcs g c")
    case At_barrier1
    with st True c' show ?thesis
      by (auto simp add: sync_step_def Let_def copies_of_simps remaining_release)
  next
    case At_barrier2
    with st True c' show ?thesis
      by (auto simp add: sync_step_def Let_def copies_of_simps remaining_release)
  next
    case At_barrier3
    with st True c' show ?thesis
      by (auto simp add: sync_step_def Let_def copies_of_simps remaining_release)
  next
    case Returned
    with st True show ?thesis
      by (simp add: sync_step_def Let_def copies_of_simps)
  next
    case (Get_loop i)
    show ?thesis
    proof (cases "i < ?rc")
      case lt: True
      from st True Get_loop lt
      have e: "e = (if is_get (?reqs i) then Some (c, ?reqs i) else None)"
        and g': "g' = g\<lparr>ram := get_iteration ?reqs i (ram g), pcs := (pcs g)(c := Get_loop (Suc i))\<rparr>"
        by (auto simp add: sync_step_def Let_def)
      show ?thesis
      proof (cases "c' = c")
        case same: True
        from lt have "[i..<?rc] = i # [Suc i..<?rc]" by (rule upt_conv_Cons)
        with same e g' Get_loop show ?thesis
          by (simp add: remaining_def Let_def copies_of_simps)
      next
        case other: False
        with g' have "remaining c' g' = remaining c' g"
          by (intro remaining_cong) simp_all
        with other e show ?thesis by (simp add: copies_of_simps)
      qed
    next
      case ge: False
      from st True Get_loop ge
      have e: "e = None" and g': "g' = g\<lparr>pcs := (pcs g)(c := At_barrier2)\<rparr>"
        by (auto simp add: sync_step_def Let_def)
      show ?thesis
      proof (cases "c' = c")
        case same: True
        from ge same e g' Get_loop show ?thesis
          by (simp add: remaining_def Let_def copies_of_simps)
      next
        case other: False
        with g' have "remaining c' g' = remaining c' g"
          by (intro remaining_cong) simp_all
        with e show ?thesis by (simp add: copies_of_simps)
      qed
    qed
  next
    case (Put_loop i)
    show ?thesis
    proof (cases "i < ?rc")
      case lt: True
      from st True Put_loop lt
      have e: "e = (if is_put (?reqs i) then Some (c, ?reqs i) else None)"
        and g': "g' = g\<lparr>ram := put_iteration ?reqs i (ram g), pcs := (pcs g)(c := Put_loop (Suc i))\<rparr>"
        by (auto simp add: sync_step_def Let_def)
      show ?thesis
      proof (cases "c' = c")
        case same: True
        from lt have "[i..<?rc] = i # [Suc i..<?rc]" by (rule upt_conv_Cons)
        with same e g' Put_loop show ?thesis
          by (simp add: remaining_def Let_def copies_of_simps)
      next
        case other: False
        with g' have "remaining c' g' = remaining c' g"
          by (intro remaining_cong) simp_all
        with other e show ?thesis by (simp add: copies_of_simps)
      qed
    next
      case ge: False
      from st True Put_loop ge
      have e: "e = None"
        and pcs': "pcs g' = (pcs g)(c := At_barrier3)"
        and cores': "cores g' = (cores g)(c := coredata (sync_finish (view c g)))"
        and shared': "shared g' = comm_buf (sync_finish (view c g))"
        by (auto simp add: sync_step_def Let_def)
      show ?thesis
      proof (cases "c' = c")
        case same: True
        from ge same e pcs' Put_loop show ?thesis
          by (simp add: remaining_def Let_def copies_of_simps)
      next
        case other: False
        have "remaining c' g' = remaining c' g"
        proof (rule remaining_cong)
          show "pcs g' c' = pcs g c'" using other pcs' by simp
          show "cores g' c' = cores g c'" using other cores' by simp
          show "data_requests (shared g') = data_requests (shared g)"
            using shared' by (simp add: sync_finish_data_requests view_def)
        qed
        with e show ?thesis by (simp add: copies_of_simps)
      qed
    qed
  qed
qed

lemma run_sync_remaining:
  "c' < n \<Longrightarrow> run_sync n sched g = (es, g')
   \<Longrightarrow> copies_of c' es @ remaining c' g' = remaining c' g"
proof (induction sched arbitrary: g es)
  case Nil
  then show ?case by (simp add: copies_of_simps)
next
  case (Cons c sched)
  from Cons.prems(2) obtain e g1 es1
    where st: "sync_step n c g = (e, g1)" and rest: "run_sync n sched g1 = (es1, g')"
      and es: "es = (case e of None \<Rightarrow> es1 | Some x \<Rightarrow> x # es1)"
    using run_sync_Cons by blast
  from Cons.IH [OF Cons.prems(1) rest]
  have ih: "copies_of c' es1 @ remaining c' g' = remaining c' g1" .
  from sync_step_remaining [OF Cons.prems(1) st]
  have one: "copies_of c' (case e of None \<Rightarrow> [] | Some x \<Rightarrow> [x]) @ remaining c' g1
      = remaining c' g" .
  have "es = (case e of None \<Rightarrow> [] | Some x \<Rightarrow> [x]) @ es1"
    using es by (cases e) simp_all
  then have "copies_of c' es @ remaining c' g'
      = copies_of c' (case e of None \<Rightarrow> [] | Some x \<Rightarrow> [x]) @ (copies_of c' es1 @ remaining c' g')"
    by (simp add: copies_of_simps)
  with ih one show ?case by simp
qed

lemma set_copies_of: "set (copies_of c es) \<subseteq> snd ` set es"
  by (auto simp add: copies_of_def)

lemma split_gets_puts:
  assumes eq: "as @ bs = filter is_get xs @ filter is_put xs"
    and as: "\<forall>r\<in>set as. is_get r" and bs: "\<forall>r\<in>set bs. is_put r"
  shows "as = filter is_get xs \<and> bs = filter is_put xs"
proof -
  have "filter is_get (as @ bs) = filter is_get (filter is_get xs @ filter is_put xs)"
    using eq by simp
  moreover have "filter is_get as = as" using as by (simp add: filter_id_conv)
  moreover have "filter is_get bs = []" using bs by (simp add: filter_empty_conv is_put_iff)
  moreover have "filter is_get (filter is_put xs) = []"
    by (simp add: filter_empty_conv is_put_iff)
  ultimately have a: "as = filter is_get xs" by simp
  with eq have "bs = filter is_put xs" by simp
  with a show ?thesis by simp
qed

text \<open>
  C1.  Let all \<open>n\<close> cores have called \<open>bsp_sync\<close> (they wait at its first barrier), with
  any request tables, and let them run under any schedule; \<open>es\<close> are the copies
  performed, in order, and \<open>g'\<close> is the machine reached.  Then \<open>es\<close> consists of copies
  of get-flagged requests followed by copies of put-flagged requests, and the memory of
  \<open>g'\<close> is the memory at the start with the gets and then the puts applied.  If the next
  step of some core copies a get-flagged request, no put has been copied so far: a get
  reads a memory that no put of this superstep has written.  When all cores have
  returned, every core has copied exactly its get-flagged requests and then exactly its
  put-flagged requests, each once and in the order of its table.  The cores pass from the
  first loop to the second through the second barrier only, all at once.
\<close>

theorem bsp_sync_gets_before_puts:
  assumes start: "all_at n At_barrier1 g" and run: "run_sync n sched g = (es, g')"
  shows "\<exists>gs ps. es = gs @ ps
          \<and> (\<forall>e\<in>set gs. is_get (snd e)) \<and> (\<forall>e\<in>set ps. is_put (snd e))
          \<and> ram g' = fold (\<lambda>e. apply_request (snd e)) ps
                       (fold (\<lambda>e. apply_request (snd e)) gs (ram g))
          \<and> (\<forall>c x. fst (sync_step n c g') = Some x \<and> is_get (snd x) \<longrightarrow> ps = [])
          \<and> (all_at n Returned g' \<longrightarrow>
               (\<forall>c<n. copies_of c gs = filter is_get (pending_requests c g)
                     \<and> copies_of c ps = filter is_put (pending_requests c g)))"
proof -
  from start have phase: "in_phase n 0 g"
    by (simp add: in_phase_def all_at_iff)
  from run_sync_ordered [OF phase run] obtain gs ps
    where split: "es = gs @ ps" and gets: "\<forall>e\<in>set gs. is_get (snd e)"
      and puts: "\<forall>e\<in>set ps. is_put (snd e)"
    by blast
  have memory: "ram g' = fold (\<lambda>e. apply_request (snd e)) ps
      (fold (\<lambda>e. apply_request (snd e)) gs (ram g))"
    using run_sync_ram [OF run] split by simp
  have before: "\<forall>c x. fst (sync_step n c g') = Some x \<and> is_get (snd x) \<longrightarrow> ps = []"
  proof (intro allI impI)
    fix c x
    assume h: "fst (sync_step n c g') = Some x \<and> is_get (snd x)"
    obtain g2 where st: "sync_step n c g' = (Some x, g2)"
      using h by (metis prod.collapse)
    have "run_sync n (sched @ [c]) g = (es @ [x], g2)"
      using run st by (simp add: run_sync_append)
    from run_sync_ordered [OF phase this] obtain gs2 ps2
      where split2: "es @ [x] = gs2 @ ps2" and gets2: "\<forall>e\<in>set gs2. is_get (snd e)"
        and puts2: "\<forall>e\<in>set ps2. is_put (snd e)"
      by blast
    have "ps2 = []"
    proof (rule ccontr)
      assume ne: "ps2 \<noteq> []"
      with split2 have "last ps2 = x"
        by (metis last_appendR snoc_eq_iff_butlast)
      with ne puts2 have "is_put (snd x)"
        using last_in_set by blast
      with h show False by (simp add: is_put_iff)
    qed
    with split2 gets2 have all_gets: "\<forall>e\<in>set es. is_get (snd e)" by auto
    show "ps = []"
    proof (rule ccontr)
      assume "ps \<noteq> []"
      then obtain e where e: "e \<in> set ps" by (meson last_in_set)
      from puts e have "is_put (snd e)" by blast
      moreover from all_gets split e have "is_get (snd e)" by simp
      ultimately show False by (simp add: is_put_iff)
    qed
  qed
  have complete: "all_at n Returned g' \<longrightarrow>
      (\<forall>c<n. copies_of c gs = filter is_get (pending_requests c g)
            \<and> copies_of c ps = filter is_put (pending_requests c g))"
  proof (intro impI allI)
    fix c
    assume fin: "all_at n Returned g'" and c: "c < n"
    from fin c have "remaining c g' = []"
      by (simp add: all_at_iff remaining_def)
    moreover from start c have "remaining c g
        = filter is_get (pending_requests c g) @ filter is_put (pending_requests c g)"
      by (simp add: all_at_iff remaining_def pending_requests_def Let_def)
    ultimately have "copies_of c gs @ copies_of c ps
        = filter is_get (pending_requests c g) @ filter is_put (pending_requests c g)"
      using run_sync_remaining [OF c run] split by (simp add: copies_of_simps)
    moreover have "\<forall>r\<in>set (copies_of c gs). is_get r"
      using gets set_copies_of [of c gs] by auto
    moreover have "\<forall>r\<in>set (copies_of c ps). is_put r"
      using puts set_copies_of [of c ps] by auto
    ultimately show "copies_of c gs = filter is_get (pending_requests c g)
        \<and> copies_of c ps = filter is_put (pending_requests c g)"
      by (rule split_gets_puts)
  qed
  from split gets puts memory before complete show ?thesis by blast
qed

theorem bsp_sync_gets_before_puts_witness:
  "all_at 2 At_barrier1 (enter_sync 2 requests_machine)
   \<and> fst requests_synced
       = [(0, \<lparr>src = 0x203000, dst = 0x2200, ebsp_data_request.nbytes = 1\<rparr>),
          (1, \<lparr>src = 0x8000, dst = 0x203000, ebsp_data_request.nbytes = 0x80000001\<rparr>)]
   \<and> all_at 2 Returned (snd requests_synced)
   \<and> ram requests_machine 0x203000 = 1
   \<and> ram (snd requests_synced) 0x2200 = 1
   \<and> ram (snd requests_synced) 0x203000 = 42"
proof -
  have start: "all_at 2 At_barrier1 (enter_sync 2 requests_machine)"
    by (simp add: all_at_2 enter_sync_def release_def)
  have run: "run_sync 2 [1, 1, 1, 1, 0, 0, 0, 1, 1, 0, 0, 1] (enter_sync 2 requests_machine)
      = (fst requests_synced, snd requests_synced)"
    by (simp add: requests_synced_def)
  note ordered = bsp_sync_gets_before_puts [OF start run]
  have trace: "fst requests_synced
       = [(0, \<lparr>src = 0x203000, dst = 0x2200, ebsp_data_request.nbytes = 1\<rparr>),
          (1, \<lparr>src = 0x8000, dst = 0x203000, ebsp_data_request.nbytes = 0x80000001\<rparr>)]"
    by (simp add: requests_synced_def requests_machine_def registered_machine_def
        bsp_get_def machine_eval put_eval)
  have fin: "all_at 2 Returned (snd requests_synced)"
    by (simp add: requests_synced_def requests_machine_def registered_machine_def
        bsp_get_def machine_eval put_eval)
  have before: "ram requests_machine 0x203000 = 1"
    by (simp add: requests_machine_def registered_machine_def
        bsp_get_def machine_eval put_eval memcpy_def)
  have after: "ram (snd requests_synced) 0x2200 = 1 \<and> ram (snd requests_synced) 0x203000 = 42"
    using ordered
    by (simp add: requests_synced_def requests_machine_def registered_machine_def
        bsp_get_def machine_eval put_eval memcpy_def)
  from start trace fin before after show ?thesis by simp
qed

text \<open>
  The flag of the requests that \<open>bsp_put\<close> and \<open>bsp_get\<close> record: a put is flagged as a
  put; a get is flagged as a get when its byte count is not negative.
\<close>

lemma get_remote_addr_cases:
  obtains d where "get_remote_addr cfg p a offset s = (None, d, s)"
  | "get_remote_addr cfg p a offset s
       = (Some (err_var_not_found p a), 0, ebsp_message (err_var_not_found p a) s)"
  by (cases "search_slot (bsp_var_list (comm_buf s)) (ebsp_core_data.pid (coredata s)) a 0
      (MAX_BSP_VARS cfg)") (simp_all add: get_remote_addr_def)

lemma sign_bit_clear: "n AND 0x80000000 = 0 \<longleftrightarrow> 0 \<le> sint n" for n :: "32 word"
proof -
  have "n AND 2 ^ 31 = 0 \<longleftrightarrow> \<not> bit n 31"
    by (rule and_exp_eq_0_iff_not_bit)
  moreover have "bit n (LENGTH(32) - Suc 0) \<longleftrightarrow> sint n < 0"
    by (rule bit_last_iff)
  ultimately show ?thesis by (simp add: not_less)
qed

lemma bsp_put_flag:
  "request_counter (coredata (snd (bsp_put cfg p a_src a_dst offset n s)))
     \<noteq> request_counter (coredata s)
   \<Longrightarrow> is_put (data_requests (comm_buf (snd (bsp_put cfg p a_src a_dst offset n s)))
         (ebsp_core_data.pid (coredata s)) (unat (request_counter (coredata s))))"
proof (cases rule: get_remote_addr_cases [of cfg p a_dst offset s])
  case (1 d)
  assume "request_counter (coredata (snd (bsp_put cfg p a_src a_dst offset n s)))
     \<noteq> request_counter (coredata s)"
  with 1 show ?thesis
    by (auto simp add: bsp_put_def Let_def ebsp_message_fields is_put_def DATA_PUT_BIT_def
        word_ao_absorbs split: if_splits)
next
  case 2
  assume "request_counter (coredata (snd (bsp_put cfg p a_src a_dst offset n s)))
     \<noteq> request_counter (coredata s)"
  with 2 show ?thesis
    by (auto simp add: bsp_put_def Let_def ebsp_message_fields split: if_splits)
qed

lemma bsp_get_flag:
  "request_counter (coredata (snd (bsp_get cfg p a_src offset a_dst n s)))
     \<noteq> request_counter (coredata s)
   \<Longrightarrow> is_get (data_requests (comm_buf (snd (bsp_get cfg p a_src offset a_dst n s)))
         (ebsp_core_data.pid (coredata s)) (unat (request_counter (coredata s))))
       \<longleftrightarrow> 0 \<le> sint n"
proof (cases rule: get_remote_addr_cases [of cfg p a_src offset s])
  case (1 d)
  note sign = sign_bit_clear [of n]
  assume "request_counter (coredata (snd (bsp_get cfg p a_src offset a_dst n s)))
     \<noteq> request_counter (coredata s)"
  with 1 sign show ?thesis
    by (auto simp add: bsp_get_def Let_def ebsp_message_fields is_get_def DATA_PUT_BIT_def
        split: if_splits)
next
  case 2
  assume "request_counter (coredata (snd (bsp_get cfg p a_src offset a_dst n s)))
     \<noteq> request_counter (coredata s)"
  with 2 show ?thesis
    by (auto simp add: bsp_get_def Let_def ebsp_message_fields split: if_splits)
qed

section \<open>Overflow\<close>

lemma bsp_put_reports:
  "(fst (bsp_put cfg p a_src a_dst offset n s) = Some err_put_overflow
     \<longleftrightarrow> MAX_DATA_REQUESTS cfg \<le> request_counter (coredata s))
   \<and> (fst (bsp_put cfg p a_src a_dst offset n s) = Some err_put_overflow2
     \<longleftrightarrow> \<not> MAX_DATA_REQUESTS cfg \<le> request_counter (coredata s)
         \<and> fst (snd (get_remote_addr cfg p a_dst offset s)) \<noteq> 0
         \<and> (buffer_size (comm_buf s) + n > MAX_PAYLOAD_SIZE cfg \<or> buffer_size (comm_buf s) = - 1))"
proof (cases rule: get_remote_addr_cases [of cfg p a_dst offset s])
  case (1 d)
  then show ?thesis by (auto simp add: bsp_put_def Let_def)
next
  case 2
  then show ?thesis by (auto simp add: bsp_put_def Let_def)
qed

lemma bsp_get_reports:
  "fst (bsp_get cfg p a_src offset a_dst n s) = Some err_get_overflow
     \<longleftrightarrow> MAX_DATA_REQUESTS cfg \<le> request_counter (coredata s)"
proof (cases rule: get_remote_addr_cases [of cfg p a_src offset s])
  case (1 d)
  then show ?thesis by (auto simp add: bsp_get_def Let_def)
next
  case 2
  then show ?thesis by (auto simp add: bsp_get_def Let_def)
qed

lemma bsp_send_reports:
  "fst (bsp_send cfg p a_tag a_payload n s) = Some err_send_overflow
     \<longleftrightarrow> buffer_size (comm_buf s) + tag_size (coredata s) + n > MAX_PAYLOAD_SIZE cfg
         \<or> count (message_queue (comm_buf s) (unat (queue_index (coredata s)))) \<ge> MAX_MESSAGES cfg"
proof -
  have "count (message_queue (comm_buf s) (unat (queue_index (coredata s)))) = - 1
      \<Longrightarrow> MAX_MESSAGES cfg \<le> count (message_queue (comm_buf s) (unat (queue_index (coredata s))))"
    by simp
  then show ?thesis
    by (auto simp add: bsp_send_def Let_def)
qed

lemma watermark_not_marker:
  "buffer_size (comm_buf s) \<le> MAX_PAYLOAD_SIZE cfg \<Longrightarrow> MAX_PAYLOAD_SIZE cfg < 0xFFFFFFFF
   \<Longrightarrow> buffer_size (comm_buf s) \<noteq> - 1"
  by (auto simp add: word_le_nat_alt word_less_nat_alt unsigned_minus_1_eq_mask
      mask_eq_exp_minus_1)

lemma bsp_put_within_capacity:
  "buffer_size (comm_buf s) \<le> MAX_PAYLOAD_SIZE cfg
   \<Longrightarrow> buffer_size (comm_buf (snd (bsp_put cfg p a_src a_dst offset n s))) \<le> MAX_PAYLOAD_SIZE cfg"
proof (cases rule: get_remote_addr_cases [of cfg p a_dst offset s])
  case (1 d)
  assume "buffer_size (comm_buf s) \<le> MAX_PAYLOAD_SIZE cfg"
  with 1 show ?thesis
    by (auto simp add: bsp_put_def Let_def ebsp_message_fields not_less)
next
  case 2
  assume "buffer_size (comm_buf s) \<le> MAX_PAYLOAD_SIZE cfg"
  with 2 show ?thesis
    by (auto simp add: bsp_put_def Let_def ebsp_message_fields)
qed

text \<open>
  C6.  Let the watermark be within the capacity of the pool, \<open>MAX_PAYLOAD_SIZE\<close>, and
  the capacity below \<open>2^32 - 1\<close> (the watermark is 0 after \<open>bsp_sync\<close>, and \<open>bsp_put\<close>
  keeps it within the capacity: \<open>bsp_put_within_capacity\<close>).  Then \<open>bsp_put\<close> relays
  \<open>err_put_overflow\<close> (PutRequestOverflow) and \<open>bsp_get\<close> relays \<open>err_get_overflow\<close>
  (GetRequestOverflow) exactly when the request table of the calling core is full;
  \<open>bsp_put\<close> relays \<open>err_put_overflow2\<close> (PutPayloadOverflow) exactly when the table has
  room, the destination resolves and watermark plus \<open>nbytes\<close> exceeds the capacity;
  \<open>bsp_send\<close> relays \<open>err_send_overflow\<close> (SendOverflow) exactly when watermark plus tag
  size plus \<open>nbytes\<close> exceeds the capacity or the active queue is full.  Whenever one of
  these four messages is relayed, the call returns the state before the call with the
  message relayed: \<open>coredata\<close> (with the request counter), the memory, the watermark,
  the request table, the queues with their counts and the registration table are as
  before.  In particular a put that would exceed the capacity relays
  \<open>err_put_overflow2\<close> and leaves the watermark as it was.
\<close>

theorem overflow_leaves_state:
  "(fst (bsp_put cfg p a_src a_dst offset n s) = Some err_put_overflow
      \<longleftrightarrow> MAX_DATA_REQUESTS cfg \<le> request_counter (coredata s))
   \<and> (fst (bsp_get cfg p a_src offset a_dst n s) = Some err_get_overflow
      \<longleftrightarrow> MAX_DATA_REQUESTS cfg \<le> request_counter (coredata s))
   \<and> (buffer_size (comm_buf s) \<le> MAX_PAYLOAD_SIZE cfg \<and> MAX_PAYLOAD_SIZE cfg < 0xFFFFFFFF \<longrightarrow>
        (fst (bsp_put cfg p a_src a_dst offset n s) = Some err_put_overflow2
          \<longleftrightarrow> \<not> MAX_DATA_REQUESTS cfg \<le> request_counter (coredata s)
              \<and> fst (snd (get_remote_addr cfg p a_dst offset s)) \<noteq> 0
              \<and> buffer_size (comm_buf s) + n > MAX_PAYLOAD_SIZE cfg))
   \<and> (fst (bsp_send cfg p a_tag a_payload n s) = Some err_send_overflow
      \<longleftrightarrow> buffer_size (comm_buf s) + tag_size (coredata s) + n > MAX_PAYLOAD_SIZE cfg
          \<or> count (message_queue (comm_buf s) (unat (queue_index (coredata s))))
               \<ge> MAX_MESSAGES cfg)
   \<and> (fst (bsp_put cfg p a_src a_dst offset n s) = Some err_put_overflow \<longrightarrow>
        snd (bsp_put cfg p a_src a_dst offset n s) = ebsp_message err_put_overflow s)
   \<and> (fst (bsp_get cfg p a_src offset a_dst n s) = Some err_get_overflow \<longrightarrow>
        snd (bsp_get cfg p a_src offset a_dst n s) = ebsp_message err_get_overflow s)
   \<and> (buffer_size (comm_buf s) \<le> MAX_PAYLOAD_SIZE cfg \<and> MAX_PAYLOAD_SIZE cfg < 0xFFFFFFFF
       \<and> fst (bsp_put cfg p a_src a_dst offset n s) = Some err_put_overflow2 \<longrightarrow>
        snd (bsp_put cfg p a_src a_dst offset n s) = ebsp_message err_put_overflow2 s)
   \<and> (fst (bsp_send cfg p a_tag a_payload n s) = Some err_send_overflow \<longrightarrow>
        snd (bsp_send cfg p a_tag a_payload n s) = ebsp_message err_send_overflow s)
   \<and> coredata (ebsp_message e s) = coredata s
   \<and> mem (ebsp_message e s) = mem s
   \<and> buffer_size (comm_buf (ebsp_message e s)) = buffer_size (comm_buf s)
   \<and> data_requests (comm_buf (ebsp_message e s)) = data_requests (comm_buf s)
   \<and> message_queue (comm_buf (ebsp_message e s)) = message_queue (comm_buf s)
   \<and> bsp_var_list (comm_buf (ebsp_message e s)) = bsp_var_list (comm_buf s)
   \<and> bsp_var_counter (comm_buf (ebsp_message e s)) = bsp_var_counter (comm_buf s)"
proof -
  note put = bsp_put_reports [of cfg p a_src a_dst offset n s]
  note get = bsp_get_reports [of cfg p a_src offset a_dst n s]
  note send = bsp_send_reports [of cfg p a_tag a_payload n s]
  have put_full: "fst (bsp_put cfg p a_src a_dst offset n s) = Some err_put_overflow \<longrightarrow>
        snd (bsp_put cfg p a_src a_dst offset n s) = ebsp_message err_put_overflow s"
    using put by (simp add: bsp_put_def)
  have get_full: "fst (bsp_get cfg p a_src offset a_dst n s) = Some err_get_overflow \<longrightarrow>
        snd (bsp_get cfg p a_src offset a_dst n s) = ebsp_message err_get_overflow s"
    using get by (simp add: bsp_get_def)
  have put_payload: "buffer_size (comm_buf s) \<le> MAX_PAYLOAD_SIZE cfg
       \<and> MAX_PAYLOAD_SIZE cfg < 0xFFFFFFFF
       \<and> fst (bsp_put cfg p a_src a_dst offset n s) = Some err_put_overflow2 \<longrightarrow>
        snd (bsp_put cfg p a_src a_dst offset n s) = ebsp_message err_put_overflow2 s"
  proof
    assume h: "buffer_size (comm_buf s) \<le> MAX_PAYLOAD_SIZE cfg
       \<and> MAX_PAYLOAD_SIZE cfg < 0xFFFFFFFF
       \<and> fst (bsp_put cfg p a_src a_dst offset n s) = Some err_put_overflow2"
    then have "buffer_size (comm_buf s) \<noteq> - 1"
      using watermark_not_marker [of s cfg] by simp
    with h put have room: "\<not> MAX_DATA_REQUESTS cfg \<le> request_counter (coredata s)"
      and found: "fst (snd (get_remote_addr cfg p a_dst offset s)) \<noteq> 0"
      and over: "buffer_size (comm_buf s) + n > MAX_PAYLOAD_SIZE cfg"
      by simp_all
    from found obtain d where r: "get_remote_addr cfg p a_dst offset s = (None, d, s)"
      and d: "d \<noteq> 0"
      by (cases rule: get_remote_addr_cases [of cfg p a_dst offset s]) simp_all
    from room r d over
    show "snd (bsp_put cfg p a_src a_dst offset n s) = ebsp_message err_put_overflow2 s"
      by (simp add: bsp_put_def Let_def)
  qed
  have send_full: "fst (bsp_send cfg p a_tag a_payload n s) = Some err_send_overflow \<longrightarrow>
        snd (bsp_send cfg p a_tag a_payload n s) = ebsp_message err_send_overflow s"
    using send by (auto simp add: bsp_send_def Let_def)
  have put_iff: "buffer_size (comm_buf s) \<le> MAX_PAYLOAD_SIZE cfg
       \<and> MAX_PAYLOAD_SIZE cfg < 0xFFFFFFFF \<longrightarrow>
        (fst (bsp_put cfg p a_src a_dst offset n s) = Some err_put_overflow2
          \<longleftrightarrow> \<not> MAX_DATA_REQUESTS cfg \<le> request_counter (coredata s)
              \<and> fst (snd (get_remote_addr cfg p a_dst offset s)) \<noteq> 0
              \<and> buffer_size (comm_buf s) + n > MAX_PAYLOAD_SIZE cfg)"
    using put watermark_not_marker [of s cfg] by simp
  from put get send put_full get_full put_payload send_full put_iff show ?thesis
    by (simp add: ebsp_message_fields)
qed

theorem overflow_leaves_state_witness:
  "bsp_put test_cfg 1 0x2800 0x2000 0 17 (registered_state 0)
     = (Some err_put_overflow2, ebsp_message err_put_overflow2 (registered_state 0))
   \<and> buffer_size (comm_buf (snd (bsp_put test_cfg 1 0x2800 0x2000 0 17 (registered_state 0)))) = 0
   \<and> bsp_put test_cfg 1 0x2800 0x2000 0 4
        ((registered_state 0)\<lparr>coredata := (test_coredata 0)\<lparr>request_counter := 2\<rparr>\<rparr>)
     = (Some err_put_overflow,
        ebsp_message err_put_overflow
          ((registered_state 0)\<lparr>coredata := (test_coredata 0)\<lparr>request_counter := 2\<rparr>\<rparr>))
   \<and> bsp_get test_cfg 1 0x2000 0 0x2800 4
        ((registered_state 0)\<lparr>coredata := (test_coredata 0)\<lparr>request_counter := 2\<rparr>\<rparr>)
     = (Some err_get_overflow,
        ebsp_message err_get_overflow
          ((registered_state 0)\<lparr>coredata := (test_coredata 0)\<lparr>request_counter := 2\<rparr>\<rparr>))
   \<and> bsp_send test_cfg 1 0x2900 0x2800 16 (test_state 0)
     = (Some err_send_overflow, ebsp_message err_send_overflow (test_state 0))"
proof -
  let ?full = "(registered_state 0)\<lparr>coredata := (test_coredata 0)\<lparr>request_counter := 2\<rparr>\<rparr>"
  have resolved: "fst (snd (get_remote_addr test_cfg 1 0x2000 0 (registered_state 0))) \<noteq> 0"
    by (simp add: put_eval)
  have a: "fst (bsp_put test_cfg 1 0x2800 0x2000 0 17 (registered_state 0)) = Some err_put_overflow2
      \<and> snd (bsp_put test_cfg 1 0x2800 0x2000 0 17 (registered_state 0))
          = ebsp_message err_put_overflow2 (registered_state 0)"
    using overflow_leaves_state [of test_cfg 1 "0x2800" "0x2000" 0 17 "registered_state 0"] resolved
    by (simp add: registered_state_def test_defs word_le_nat_alt word_less_nat_alt)
  have b: "fst (bsp_put test_cfg 1 0x2800 0x2000 0 4 ?full) = Some err_put_overflow
      \<and> snd (bsp_put test_cfg 1 0x2800 0x2000 0 4 ?full) = ebsp_message err_put_overflow ?full"
    using overflow_leaves_state [of test_cfg 1 "0x2800" "0x2000" 0 4 ?full]
    by (simp add: registered_state_def test_defs)
  have c: "fst (bsp_get test_cfg 1 0x2000 0 0x2800 4 ?full) = Some err_get_overflow
      \<and> snd (bsp_get test_cfg 1 0x2000 0 0x2800 4 ?full) = ebsp_message err_get_overflow ?full"
    using overflow_leaves_state [of test_cfg 1 "0x2000" "0x2800" 0 4 ?full]
    by (simp add: registered_state_def test_defs)
  have d: "fst (bsp_send test_cfg 1 0x2900 0x2800 16 (test_state 0)) = Some err_send_overflow
      \<and> snd (bsp_send test_cfg 1 0x2900 0x2800 16 (test_state 0))
          = ebsp_message err_send_overflow (test_state 0)"
    using overflow_leaves_state [of test_cfg 1 _ _ _ 16 "test_state 0" "0x2900" "0x2800"]
    by (simp add: test_defs word_le_nat_alt word_less_nat_alt)
  from a b c d show ?thesis
    by (simp add: prod_eq_iff ebsp_message_fields) (simp add: registered_state_def test_defs)
qed

section \<open>The payload watermark\<close>

lemma get_remote_addr_buffer_size:
  "buffer_size (comm_buf (snd (snd (get_remote_addr cfg p a offset s)))) = buffer_size (comm_buf s)"
  by (simp add: get_remote_addr_def ebsp_message_fields split: option.splits)

lemma bsp_put_buffer_size:
  "buffer_size (comm_buf (snd (bsp_put cfg p a_src a_dst offset n s))) = buffer_size (comm_buf s)
   \<or> buffer_size (comm_buf (snd (bsp_put cfg p a_src a_dst offset n s))) = buffer_size (comm_buf s) + n"
  by (auto simp add: bsp_put_def Let_def get_remote_addr_def ebsp_message_fields split: option.splits)

lemma bsp_send_buffer_size:
  "buffer_size (comm_buf (snd (bsp_send cfg p a_tag a_payload n s))) = buffer_size (comm_buf s)
   \<or> buffer_size (comm_buf (snd (bsp_send cfg p a_tag a_payload n s))) = buffer_size (comm_buf s) + n"
  by (auto simp add: bsp_send_def Let_def ebsp_message_fields)

lemma next_queue_message_comm_buf: "comm_buf (snd (next_queue_message s)) = comm_buf s"
  by (simp add: next_queue_message_def Let_def)

lemma other_calls_buffer_size:
  "buffer_size (comm_buf (snd (bsp_push_reg cfg variable n s))) = buffer_size (comm_buf s)"
  "buffer_size (comm_buf (snd (bsp_hpput cfg p a_src a_dst offset n s))) = buffer_size (comm_buf s)"
  "buffer_size (comm_buf (snd (bsp_get cfg p a_src offset a_dst n s))) = buffer_size (comm_buf s)"
  "buffer_size (comm_buf (snd (bsp_hpget cfg p a_src offset a_dst n s))) = buffer_size (comm_buf s)"
  "buffer_size (comm_buf (snd (bsp_set_tagsize tag_bytes s))) = buffer_size (comm_buf s)"
  "buffer_size (comm_buf (snd (snd (bsp_qsize s)))) = buffer_size (comm_buf s)"
  "buffer_size (comm_buf (snd (bsp_get_tag a_tag s))) = buffer_size (comm_buf s)"
  "buffer_size (comm_buf (bsp_move a_payload bufsize s)) = buffer_size (comm_buf s)"
  "buffer_size (comm_buf (snd (snd (bsp_hpmove s)))) = buffer_size (comm_buf s)"
proof -
  show "buffer_size (comm_buf (snd (bsp_push_reg cfg variable n s))) = buffer_size (comm_buf s)"
    by (simp add: bsp_push_reg_def ebsp_message_fields)
  show "buffer_size (comm_buf (snd (bsp_hpput cfg p a_src a_dst offset n s))) = buffer_size (comm_buf s)"
    by (simp add: bsp_hpput_def get_remote_addr_def ebsp_message_fields split: option.splits)
  show "buffer_size (comm_buf (snd (bsp_get cfg p a_src offset a_dst n s))) = buffer_size (comm_buf s)"
    by (simp add: bsp_get_def Let_def get_remote_addr_def ebsp_message_fields split: option.splits)
  show "buffer_size (comm_buf (snd (bsp_hpget cfg p a_src offset a_dst n s))) = buffer_size (comm_buf s)"
    by (simp add: bsp_hpget_def get_remote_addr_def ebsp_message_fields split: option.splits)
  show "buffer_size (comm_buf (snd (bsp_set_tagsize tag_bytes s))) = buffer_size (comm_buf s)"
    by (simp add: bsp_set_tagsize_def)
  show "buffer_size (comm_buf (snd (snd (bsp_qsize s)))) = buffer_size (comm_buf s)"
    by (simp add: bsp_qsize_def Let_def split: prod.splits)
  show "buffer_size (comm_buf (snd (bsp_get_tag a_tag s))) = buffer_size (comm_buf s)"
    using next_queue_message_comm_buf [of s]
    by (auto simp add: bsp_get_tag_def split: prod.splits option.splits)
  show "buffer_size (comm_buf (bsp_move a_payload bufsize s)) = buffer_size (comm_buf s)"
    using next_queue_message_comm_buf [of s]
    by (auto simp add: bsp_move_def pop_queue_message_def Let_def split: prod.splits option.splits)
  show "buffer_size (comm_buf (snd (snd (bsp_hpmove s)))) = buffer_size (comm_buf s)"
    using next_queue_message_comm_buf [of s]
    by (auto simp add: bsp_hpmove_def pop_queue_message_def Let_def split: prod.splits option.splits)
qed

lemma sync_finish_buffer_size: "buffer_size (comm_buf (sync_finish s)) = 0"
  by (simp add: sync_finish_def Let_def)

lemma sync_step_reset_seen:
  assumes inv: "reset_seen n g" and st: "sync_step n c g = (e, g')"
  shows "reset_seen n g'"
proof (cases "c < n")
  case False
  with st inv show ?thesis by (simp add: sync_step_def)
next
  case True
  show ?thesis
  proof (cases "pcs g c")
    case At_barrier1
    with st True have g': "g' = (if all_at n At_barrier1 g then release n (Get_loop 0) g else g)"
      by (simp add: sync_step_def Let_def)
    show ?thesis
    proof (cases "all_at n At_barrier1 g")
      case all: True
      with g' inv show ?thesis
        by (auto simp add: reset_seen_def release_def all_at_iff)
    next
      case False
      with g' inv show ?thesis by simp
    qed
  next
    case (Get_loop i)
    with st True have sh: "shared g' = shared g"
      and pc: "pcs g' = (pcs g)(c := Get_loop (Suc i)) \<or> pcs g' = (pcs g)(c := At_barrier2)"
      by (auto simp add: sync_step_def Let_def split: if_splits)
    from inv sh pc show ?thesis
      by (auto simp add: reset_seen_def split: if_splits)
  next
    case At_barrier2
    with st True have g': "g' = (if all_at n At_barrier2 g then release n (Put_loop 0) g else g)"
      by (simp add: sync_step_def Let_def)
    show ?thesis
    proof (cases "all_at n At_barrier2 g")
      case all: True
      with g' inv show ?thesis
        by (auto simp add: reset_seen_def release_def all_at_iff)
    next
      case False
      with g' inv show ?thesis by simp
    qed
  next
    case (Put_loop i)
    show ?thesis
    proof (cases "i < unat (request_counter (cores g c))")
      case True
      with st \<open>c < n\<close> Put_loop have sh: "shared g' = shared g"
        and pc: "pcs g' = (pcs g)(c := Put_loop (Suc i))"
        by (auto simp add: sync_step_def Let_def)
      from inv sh pc show ?thesis
        by (auto simp add: reset_seen_def split: if_splits)
    next
      case False
      with st \<open>c < n\<close> Put_loop have "shared g' = comm_buf (sync_finish (view c g))"
        by (auto simp add: sync_step_def Let_def)
      then show ?thesis
        by (simp add: reset_seen_def sync_finish_buffer_size)
    qed
  next
    case At_barrier3
    with st True have g': "g' = (if all_at n At_barrier3 g then release n (Returned) g else g)"
      by (simp add: sync_step_def Let_def)
    show ?thesis
    proof (cases "all_at n At_barrier3 g")
      case all: True
      with g' inv show ?thesis
        by (auto simp add: reset_seen_def release_def all_at_iff)
    next
      case False
      with g' inv show ?thesis by simp
    qed
  next
    case Returned
    with st True inv show ?thesis by (simp add: sync_step_def Let_def)
  qed
qed

lemma run_sync_reset_seen:
  "reset_seen n g \<Longrightarrow> run_sync n sched g = (es, g') \<Longrightarrow> reset_seen n g'"
proof (induction sched arbitrary: g es)
  case Nil
  then show ?case by simp
next
  case (Cons c sched)
  from Cons.prems(2) obtain e g1 es1
    where st: "sync_step n c g = (e, g1)" and rest: "run_sync n sched g1 = (es1, g')"
    using run_sync_Cons by blast
  from sync_step_reset_seen [OF Cons.prems(1) st] have "reset_seen n g1" .
  from Cons.IH [OF this rest] show ?case .
qed

lemma run_sync_watermark_zero:
  assumes "0 < n" and "all_at n At_barrier1 g" and "run_sync n sched g = (es, g')"
    and "all_at n Returned g'"
  shows "buffer_size (shared g') = 0"
proof -
  from assms(1,2) have "reset_seen n g"
    by (auto simp add: reset_seen_def all_at_iff)
  from run_sync_reset_seen [OF this assms(3)] have "reset_seen n g'" .
  with assms(1,4) show ?thesis
    by (auto simp add: reset_seen_def all_at_iff)
qed

lemma bsp_sync_buffer_size: "buffer_size (comm_buf (bsp_sync s)) = 0"
  by (simp add: bsp_sync_def sync_finish_def Let_def)

lemma exec_call_buffer_size:
  "call \<noteq> Sync \<Longrightarrow>
   buffer_size (comm_buf (exec_call cfg call s)) = buffer_size (comm_buf s)
   \<or> buffer_size (comm_buf (exec_call cfg call s)) = buffer_size (comm_buf s) + reserved_bytes call"
proof (cases call)
  case (Put p a_src a_dst offset n)
  then show ?thesis using bsp_put_buffer_size [of cfg p a_src a_dst offset n s] by simp
next
  case (Send p a_tag a_payload n)
  then show ?thesis using bsp_send_buffer_size [of cfg p a_tag a_payload n s] by simp
qed (simp_all add: other_calls_buffer_size)

text \<open>
  C7.  For a byte count that is not negative and a watermark below \<open>2^31\<close>, a call other
  than \<open>bsp_sync\<close> leaves the watermark as it is or advances it: the watermark after the
  call is not below the watermark before it.  After \<open>bsp_sync\<close> the watermark is 0: for
  one core running it alone, and for \<open>n\<close> cores under any schedule once all of them have
  returned.  No other call resets or lowers it.
\<close>

theorem watermark_monotone:
  "(call \<noteq> Sync \<and> buffer_size (comm_buf s) < 0x80000000 \<and> reserved_bytes call < 0x80000000 \<longrightarrow>
      buffer_size (comm_buf s) \<le> buffer_size (comm_buf (exec_call cfg call s)))
   \<and> buffer_size (comm_buf (exec_call cfg Sync s)) = 0
   \<and> (0 < n \<and> all_at n At_barrier1 g \<and> all_at n Returned (snd (run_sync n sched g)) \<longrightarrow>
        buffer_size (shared (snd (run_sync n sched g))) = 0)"
proof (intro conjI impI)
  assume h: "call \<noteq> Sync \<and> buffer_size (comm_buf s) < 0x80000000
      \<and> reserved_bytes call < 0x80000000"
  then have "unat (buffer_size (comm_buf s)) < 2147483648"
    and "unat (reserved_bytes call) < 2147483648"
    by (simp_all add: word_less_nat_alt)
  then have "unat (buffer_size (comm_buf s)) + unat (reserved_bytes call) < 2 ^ LENGTH(32)"
    by simp
  then have "buffer_size (comm_buf s) \<le> buffer_size (comm_buf s) + reserved_bytes call"
    by (simp only: no_olen_add_nat)
  with h exec_call_buffer_size [of call cfg s]
  show "buffer_size (comm_buf s) \<le> buffer_size (comm_buf (exec_call cfg call s))"
    by auto
next
  show "buffer_size (comm_buf (exec_call cfg Sync s)) = 0"
    by (simp add: bsp_sync_buffer_size)
next
  assume h: "0 < n \<and> all_at n At_barrier1 g \<and> all_at n Returned (snd (run_sync n sched g))"
  have "run_sync n sched g = (fst (run_sync n sched g), snd (run_sync n sched g))"
    by simp
  with h show "buffer_size (shared (snd (run_sync n sched g))) = 0"
    by (intro run_sync_watermark_zero [of n g sched "fst (run_sync n sched g)"]) simp_all
qed

theorem watermark_monotone_witness:
  "buffer_size (comm_buf (registered_state 0))
     \<le> buffer_size (comm_buf (exec_call test_cfg (Put 1 0x2800 0x2000 0 5) (registered_state 0)))
   \<and> buffer_size (comm_buf (exec_call test_cfg (Put 1 0x2800 0x2000 0 5) (registered_state 0))) = 5
   \<and> buffer_size (comm_buf (exec_call test_cfg Sync five_reserved_state)) = 0
   \<and> buffer_size (shared (enter_sync 2 sent_machine)) = 2
   \<and> buffer_size (shared synced_once) = 0"
proof -
  have calls: "buffer_size (comm_buf (registered_state 0))
     \<le> buffer_size (comm_buf (exec_call test_cfg (Put 1 0x2800 0x2000 0 5) (registered_state 0)))
   \<and> buffer_size (comm_buf (exec_call test_cfg (Put 1 0x2800 0x2000 0 5) (registered_state 0))) = 5
   \<and> buffer_size (comm_buf (exec_call test_cfg Sync five_reserved_state)) = 0"
    using watermark_monotone [of "Put 1 0x2800 0x2000 0 5" "registered_state 0" test_cfg]
      watermark_monotone [of Sync five_reserved_state test_cfg]
    by (simp add: put_eval)
  have before: "buffer_size (shared (enter_sync 2 sent_machine)) = 2"
    by (simp add: sent_machine_def test_machine_def test_defs machine_eval queue_eval)
  have start: "all_at 2 At_barrier1 (enter_sync 2 sent_machine)"
    by (simp add: all_at_2 enter_sync_def release_def)
  have fin: "all_at 2 Returned synced_once"
    by (simp add: synced_once_def sent_machine_def test_machine_def test_defs
        machine_eval queue_eval)
  from start fin have after: "buffer_size (shared synced_once) = 0"
    using watermark_monotone [of _ _ _ 2 "enter_sync 2 sent_machine" "[0, 0, 1, 0, 0, 1, 0]"]
    by (simp add: synced_once_def)
  from calls before after show ?thesis by blast
qed

end
